theory Spec2Isabelle
  imports Complex_Main
begin

section \<open>JavaScript values\<close>

text \<open>
  The widget is TypeScript that runs in a browser. The feature properties it reads are
  typed \<^verbatim>\<open>any\<close>, so what the code does is decided by the language's rules for
  truthiness (\<^verbatim>\<open>||\<close>), nullishness (\<^verbatim>\<open>??\<close>, \<^verbatim>\<open>!= null\<close>), strict equality
  (\<^verbatim>\<open>===\<close>) and property lookup. Those rules are written out here.

  A number is a double: not-a-number, an infinity, or a finite value, which is a real.
  No arithmetic is ever done on a number by this program (it only compares, tests and
  indexes), so no rounding is involved; \<open>+0\<close> and \<open>-0\<close> are one value, as they are
  for every operation used here.
\<close>

datatype js_number = NaN | Finite real | PosInfinity | NegInfinity

text \<open>
  The primitive values: what a property of a feature can hold (\<open>Undefined\<close> is what
  reading an absent property gives).
\<close>

datatype js_prim = Undefined | Null | Bool bool | Num js_number | Str string

text \<open>
  A value is a primitive or an object of the runtime. The only objects that the
  expressions modelled here can produce are the built-in ones that every object literal
  inherits from \<^verbatim>\<open>Object.prototype\<close>; they are named, not described.
\<close>

datatype js_value = Prim js_prim | Builtin string

fun truthy_prim :: "js_prim \<Rightarrow> bool" where
  "truthy_prim Undefined = False"
| "truthy_prim Null = False"
| "truthy_prim (Bool b) = b"
| "truthy_prim (Num NaN) = False"
| "truthy_prim (Num (Finite r)) = (r \<noteq> 0)"
| "truthy_prim (Num PosInfinity) = True"
| "truthy_prim (Num NegInfinity) = True"
| "truthy_prim (Str s) = (s \<noteq> [])"

fun truthy :: "js_value \<Rightarrow> bool" where
  "truthy (Prim p) = truthy_prim p"
| "truthy (Builtin b) = True"

text \<open>\<^verbatim>\<open>a || b\<close>: the left operand when it is truthy, the right one otherwise.\<close>

definition or_else :: "js_value \<Rightarrow> js_value \<Rightarrow> js_value" where
  "or_else a b = (if truthy a then a else b)"

text \<open>\<^verbatim>\<open>v != null\<close> (loose): false for \<^verbatim>\<open>null\<close> and \<^verbatim>\<open>undefined\<close> only.\<close>

fun nullish :: "js_prim \<Rightarrow> bool" where
  "nullish Undefined = True"
| "nullish Null = True"
| "nullish v = False"

text \<open>
  A property key is a string. A number used as a key stands for its canonical numeric
  string (\<open>Index\<close>); the text of that string is the engine's business and is never
  the name of a property of the objects indexed by arbitrary values below, whose own and
  inherited property names are all identifiers.
\<close>

datatype property_key = Name string | Index js_number

fun to_property_key :: "js_prim \<Rightarrow> property_key" where
  "to_property_key Undefined = Name ''undefined''"
| "to_property_key Null = Name ''null''"
| "to_property_key (Bool b) = Name (if b then ''true'' else ''false'')"
| "to_property_key (Num n) = Index n"
| "to_property_key (Str s) = Name s"

text \<open>
  The properties of \<^verbatim>\<open>Object.prototype\<close>, each with the built-in it holds. An object
  literal inherits all of them.
\<close>

definition object_prototype :: "(string \<times> string) list" where
  "object_prototype =
    [(''constructor'', ''Object''),
     (''__defineGetter__'', ''__defineGetter__''),
     (''__defineSetter__'', ''__defineSetter__''),
     (''hasOwnProperty'', ''hasOwnProperty''),
     (''__lookupGetter__'', ''__lookupGetter__''),
     (''__lookupSetter__'', ''__lookupSetter__''),
     (''isPrototypeOf'', ''isPrototypeOf''),
     (''propertyIsEnumerable'', ''propertyIsEnumerable''),
     (''toString'', ''toString''),
     (''valueOf'', ''valueOf''),
     (''__proto__'', ''Object.prototype''),
     (''toLocaleString'', ''toLocaleString'')]"

text \<open>
  \<^verbatim>\<open>obj[key]\<close> on an object literal whose own properties are the strings \<open>own\<close>:
  an own property first, then the prototype, then \<^verbatim>\<open>undefined\<close>.
\<close>

fun get_property :: "(string \<times> string) list \<Rightarrow> property_key \<Rightarrow> js_value" where
  "get_property own (Index n) = Prim Undefined"
| "get_property own (Name k) =
     (case map_of own k of
        Some v \<Rightarrow> Prim (Str v)
      | None \<Rightarrow>
          (case map_of object_prototype k of
             Some b \<Rightarrow> Builtin b
           | None \<Rightarrow> Prim Undefined))"

text \<open>
  \<^verbatim>\<open>Number(v)\<close>. Turning a string into a number is the engine's
  \<^verbatim>\<open>StringToNumber\<close>, taken as a parameter.
\<close>

fun to_number :: "(string \<Rightarrow> js_number) \<Rightarrow> js_prim \<Rightarrow> js_number" where
  "to_number s2n Undefined = NaN"
| "to_number s2n Null = Finite 0"
| "to_number s2n (Bool b) = Finite (if b then 1 else 0)"
| "to_number s2n (Num n) = n"
| "to_number s2n (Str s) = s2n s"

section \<open>Features and the layers drawn for them\<close>

text \<open>
  A GeoJSON feature, as far as the widget reads it: its \<^verbatim>\<open>properties\<close> member, which
  is an object or \<^verbatim>\<open>null\<close>. Reading a property \<open>k\<close> of the object is \<open>get_prop p k\<close>.
\<close>

type_synonym properties = "string \<rightharpoonup> js_prim"

record feature =
  properties :: "properties option"

definition get_prop :: "properties \<Rightarrow> string \<Rightarrow> js_prim" where
  "get_prop p k = (case p k of None \<Rightarrow> Undefined | Some v \<Rightarrow> v)"

text \<open>
  A template literal is its literal chunks and the values substituted between them. A
  substituted value is turned into text by the engine (\<^verbatim>\<open>ToString\<close>); the model keeps
  the value.
\<close>

datatype part = Lit string | Subst js_value

datatype content = Text string | Template "part list"

text \<open>
  The vector layer Leaflet creates for one feature: the tooltip bound to it, with its
  options, and the handlers attached with \<^verbatim>\<open>layer.on\<close>, in the order attached. A handler
  of this program is a call of \<^verbatim>\<open>setStyle\<close>, given by the options it sets.
\<close>

type_synonym path_options = "(string \<times> js_prim) list"

datatype handler = SetStyle path_options

record path_layer =
  tooltip :: "(content \<times> path_options) option"
  handlers :: "(string \<times> handler) list"

definition new_path :: path_layer where
  "new_path = \<lparr>tooltip = None, handlers = []\<rparr>"

definition bindTooltip :: "content \<Rightarrow> path_options \<Rightarrow> path_layer \<Rightarrow> path_layer" where
  "bindTooltip c opts layer = layer\<lparr>tooltip := Some (c, opts)\<rparr>"

definition layer_on :: "string \<Rightarrow> handler \<Rightarrow> path_layer \<Rightarrow> path_layer" where
  "layer_on type h layer = layer\<lparr>handlers := handlers layer @ [(type, h)]\<rparr>"

subsection \<open>The incident tooltip (\<^verbatim>\<open>workzoneEachFeature\<close>)\<close>

definition sev :: "properties \<Rightarrow> string" where
  "sev p =
     (if get_prop p ''Severity'' = Num (Finite 1) then ''Low''
      else if get_prop p ''Severity'' = Num (Finite 2) then ''Medium''
      else if get_prop p ''Severity'' = Num (Finite 3) then ''High''
      else ''Not Provided'')"

definition dirMap :: "(string \<times> string) list" where
  "dirMap =
     [(''N'', ''North''), (''S'', ''South''), (''E'', ''East''),
      (''W'', ''West''), (''A'', ''All''), (''O'', ''Outer'')]"

definition direction :: "properties \<Rightarrow> js_value" where
  "direction p =
     or_else (get_property dirMap (to_property_key (get_prop p ''Direction'')))
       (Prim (Str ''Not Provided''))"

text \<open>\<^verbatim>\<open>p.Field || "placeholder"\<close>, as substituted into the template.\<close>

definition field_or :: "properties \<Rightarrow> string \<Rightarrow> string \<Rightarrow> js_value" where
  "field_or p k placeholder = or_else (Prim (get_prop p k)) (Prim (Str placeholder))"

text \<open>The line break and the indentation between two lines of the template.\<close>

definition br :: string where
  "br = ''<br/>\<newline>                     ''"

definition label :: "properties \<Rightarrow> part list" where
  "label p =
     [Lit ''<strong>Type:</strong> '', Subst (field_or p ''IncidentType'' ''Not Provided''),
      Lit (br @ ''<strong>Impact Level:</strong> ''), Subst (Prim (Str (sev p))),
      Lit (br @ ''<strong>Condition:</strong> ''), Subst (field_or p ''Condition'' ''Not Provided''),
      Lit (br @ ''<strong>Place:</strong> ''), Subst (field_or p ''City'' ''Unknown City''),
      Lit '', '', Subst (field_or p ''CountyName'' ''Unknown''),
      Lit ('' County'' @ br @ ''<strong>Road:</strong> ''), Subst (field_or p ''Road'' ''Not Provided''),
      Lit (br @ ''<strong>Direction:</strong> ''), Subst (direction p),
      Lit (br @ ''<strong>Reason:</strong> ''), Subst (field_or p ''Reason'' ''Not Provided''),
      Lit (br @ ''<strong>Until:</strong> ''), Subst (field_or p ''EndDateET'' ''Not Provided'')]"

definition workzoneEachFeature :: "feature \<Rightarrow> path_layer \<Rightarrow> path_layer" where
  "workzoneEachFeature feature layer =
     (let p = (case properties feature of None \<Rightarrow> Map.empty | Some q \<Rightarrow> q)
      in layer_on ''mouseout'' (SetStyle [(''color'', Str ''blue'')])
           (layer_on ''mouseover'' (SetStyle [(''color'', Str ''yellow'')])
              (bindTooltip (Template (label p)) [(''sticky'', Bool True)] layer)))"

section \<open>The document\<close>

text \<open>
  The widget reads and changes the page's DOM in two places: it creates the map's
  container, and it wires the group headers of the layer control. An element is a node of
  a tree; the program holds references to elements, so every element carries its identity
  (a number). The fields of an element are the ones the program reads or writes: tag, id
  attribute, class list, other attributes, \<^verbatim>\<open>tabIndex\<close>, inline style (a property that
  is not set reads as the empty string), the expando \<^verbatim>\<open>_gliWired\<close>, the listeners added
  with \<^verbatim>\<open>addEventListener\<close>, and whether Leaflet's \<^verbatim>\<open>disableClickPropagation\<close> and
  \<^verbatim>\<open>disableScrollPropagation\<close> were applied to it.

  A listener is a closure of \<^verbatim>\<open>makeGroupedLayerCollapsible\<close>: it holds the header and
  the items it was created with.
\<close>

datatype listener = ClickToggle nat "nat list" | KeydownToggle nat "nat list"

record html_element =
  tagName :: string
  elem_id :: string
  classList :: "string list"
  attrs :: "(string \<times> string) list"
  tabIndex :: "int option"
  css :: "string \<Rightarrow> string"
  gliWired :: bool
  event_listeners :: "(string \<times> listener) list"
  click_propagation_disabled :: bool
  scroll_propagation_disabled :: bool

datatype node = TextNode string | Element nat html_element "node list"

type_synonym elem = "nat \<times> html_element \<times> node list"

definition createElement :: "string \<Rightarrow> html_element" where
  "createElement tag =
     \<lparr>tagName = tag, elem_id = [], classList = [], attrs = [], tabIndex = None,
      css = (\<lambda>property. []), gliWired = False, event_listeners = [],
      click_propagation_disabled = False, scroll_propagation_disabled = False\<rparr>"

text \<open>The elements of a tree, and of a list of trees, in document order.\<close>

fun elements :: "node \<Rightarrow> elem list" and elements_in :: "node list \<Rightarrow> elem list" where
  "elements (TextNode t) = []"
| "elements (Element i e cs) = (i, e, cs) # elements_in cs"
| "elements_in [] = []"
| "elements_in (n # ns) = elements n @ elements_in ns"

definition ids :: "node list \<Rightarrow> nat list" where
  "ids ns = map fst (elements_in ns)"

text \<open>The element a reference stands for.\<close>

definition deref :: "nat \<Rightarrow> node list \<Rightarrow> elem option" where
  "deref x ns = find (\<lambda>(i, e, cs). i = x) (elements_in ns)"

definition getElementById :: "string \<Rightarrow> node list \<Rightarrow> nat option" where
  "getElementById name ns =
     map_option fst (find (\<lambda>(i, e, cs). elem_id e = name) (elements_in ns))"

text \<open>\<^verbatim>\<open>el.querySelectorAll("." + cls)\<close>: the descendants of \<open>el\<close> that have the class.\<close>

definition querySelectorAll :: "nat \<Rightarrow> string \<Rightarrow> node list \<Rightarrow> elem list" where
  "querySelectorAll x cls ns =
     (case deref x ns of
        None \<Rightarrow> []
      | Some (i, e, cs) \<Rightarrow> filter (\<lambda>(j, d, ds). cls \<in> set (classList d)) (elements_in cs))"

fun textContent :: "node \<Rightarrow> string" and textContent_in :: "node list \<Rightarrow> string" where
  "textContent (TextNode t) = t"
| "textContent (Element i e cs) = textContent_in cs"
| "textContent_in [] = []"
| "textContent_in (n # ns) = textContent n @ textContent_in ns"

text \<open>
  The path from an element up to the root: the element itself first, then its parent, and
  so on. It is empty when the tree has no such element.
\<close>

fun path_to :: "nat \<Rightarrow> node \<Rightarrow> elem list" and path_in :: "nat \<Rightarrow> node list \<Rightarrow> elem list" where
  "path_to x (TextNode t) = []"
| "path_to x (Element i e cs) =
     (if i = x then [(i, e, cs)]
      else (case path_in x cs of [] \<Rightarrow> [] | p # ps \<Rightarrow> (p # ps) @ [(i, e, cs)]))"
| "path_in x [] = []"
| "path_in x (n # ns) = (case path_to x n of [] \<Rightarrow> path_in x ns | p # ps \<Rightarrow> p # ps)"

text \<open>\<^verbatim>\<open>el.closest("." + cls)\<close>: the nearest of \<open>el\<close> and its ancestors that has the class.\<close>

definition closest :: "string \<Rightarrow> nat \<Rightarrow> node list \<Rightarrow> nat option" where
  "closest cls x ns =
     map_option fst (find (\<lambda>(i, e, cs). cls \<in> set (classList e)) (path_in x ns))"

definition parentElement :: "nat \<Rightarrow> node list \<Rightarrow> nat option" where
  "parentElement x ns = (case path_in x ns of p # (i, e, cs) # ps \<Rightarrow> Some i | _ \<Rightarrow> None)"

text \<open>\<^verbatim>\<open>el.children\<close>: the child elements, as references.\<close>

definition children :: "nat \<Rightarrow> node list \<Rightarrow> nat list" where
  "children x ns =
     (case deref x ns of
        None \<Rightarrow> []
      | Some (i, e, cs) \<Rightarrow> concat (map (\<lambda>n. case n of TextNode t \<Rightarrow> [] | Element j d ds \<Rightarrow> [j]) cs))"

text \<open>A write to a field of the element \<open>x\<close>.\<close>

fun update_element :: "nat \<Rightarrow> (html_element \<Rightarrow> html_element) \<Rightarrow> node \<Rightarrow> node"
  and update_in :: "nat \<Rightarrow> (html_element \<Rightarrow> html_element) \<Rightarrow> node list \<Rightarrow> node list" where
  "update_element x f (TextNode t) = TextNode t"
| "update_element x f (Element i e cs) = Element i (if i = x then f e else e) (update_in x f cs)"
| "update_in x f [] = []"
| "update_in x f (n # ns) = update_element x f n # update_in x f ns"

text \<open>
  \<^verbatim>\<open>parent.insertBefore(new, ref)\<close> for a child \<open>ref\<close> of \<open>parent\<close> (the caller checks
  that it is one), and \<^verbatim>\<open>parent.appendChild(new)\<close>.
\<close>

fun is_element :: "nat \<Rightarrow> node \<Rightarrow> bool" where
  "is_element x (TextNode t) = False"
| "is_element x (Element i e cs) = (i = x)"

fun insert_before :: "nat \<Rightarrow> node \<Rightarrow> nat \<Rightarrow> node \<Rightarrow> node"
  and insert_before_in :: "nat \<Rightarrow> node \<Rightarrow> nat \<Rightarrow> node list \<Rightarrow> node list" where
  "insert_before p new r (TextNode t) = TextNode t"
| "insert_before p new r (Element i e cs) =
     (if i = p
      then Element i e (takeWhile (\<lambda>n. \<not> is_element r n) cs @ new # dropWhile (\<lambda>n. \<not> is_element r n) cs)
      else Element i e (insert_before_in p new r cs))"
| "insert_before_in p new r [] = []"
| "insert_before_in p new r (n # ns) = insert_before p new r n # insert_before_in p new r ns"

fun append_child :: "nat \<Rightarrow> node \<Rightarrow> node \<Rightarrow> node"
  and append_child_in :: "nat \<Rightarrow> node \<Rightarrow> node list \<Rightarrow> node list" where
  "append_child p new (TextNode t) = TextNode t"
| "append_child p new (Element i e cs) =
     (if i = p then Element i e (cs @ [new]) else Element i e (append_child_in p new cs))"
| "append_child_in p new [] = []"
| "append_child_in p new (n # ns) = append_child p new n # append_child_in p new ns"

text \<open>\<^verbatim>\<open>el.remove()\<close>: the element leaves the tree, with everything below it.\<close>

fun remove_element :: "nat \<Rightarrow> node \<Rightarrow> node"
  and remove_in :: "nat \<Rightarrow> node list \<Rightarrow> node list" where
  "remove_element x (TextNode t) = TextNode t"
| "remove_element x (Element i e cs) = Element i e (remove_in x cs)"
| "remove_in x [] = []"
| "remove_in x (n # ns) =
     (if is_element x n then remove_in x ns else remove_element x n # remove_in x ns)"

text \<open>
  \<^verbatim>\<open>classList.toggle(cls, force)\<close>: with \<open>force\<close> the class is added unless it is there,
  without it the class is removed.
\<close>

definition classList_toggle :: "string \<Rightarrow> bool \<Rightarrow> html_element \<Rightarrow> html_element" where
  "classList_toggle cls force e =
     (if force
      then (if cls \<in> set (classList e) then e else e\<lparr>classList := classList e @ [cls]\<rparr>)
      else e\<lparr>classList := filter (\<lambda>c. c \<noteq> cls) (classList e)\<rparr>)"

text \<open>
  Text is ASCII in the model. \<^verbatim>\<open>trim\<close> removes white space at both ends and
  \<^verbatim>\<open>toLowerCase\<close> maps \<open>A\<close> to \<open>Z\<close> to \<open>a\<close> to \<open>z\<close>.
\<close>

definition is_space :: "char \<Rightarrow> bool" where
  "is_space c = (c \<in> set [CHR '' '', CHR 0x09, CHR 0x0A, CHR 0x0B, CHR 0x0C, CHR 0x0D])"

definition trim :: "string \<Rightarrow> string" where
  "trim s = rev (dropWhile is_space (rev (dropWhile is_space s)))"

definition toLowerCase :: "string \<Rightarrow> string" where
  "toLowerCase s =
     map (\<lambda>c. case map_of (zip ''ABCDEFGHIJKLMNOPQRSTUVWXYZ'' ''abcdefghijklmnopqrstuvwxyz'') c of
               None \<Rightarrow> c
             | Some l \<Rightarrow> l) s"

subsection \<open>The county tooltip (\<^verbatim>\<open>onEachFeature\<close> of the boundary layer)\<close>

text \<open>
  The two data modules the widget imports (\<^verbatim>\<open>./data/nc_counties\<close> and
  \<^verbatim>\<open>./data/fipsToCounty\<close>) are parameters: the county features, and the table from a
  FIPS code to a county name. The table is indexed by a number, so no inherited property
  is ever read from it. With them come two things the widget takes from its libraries:
  the engine's \<^verbatim>\<open>StringToNumber\<close>, and the markup that the grouped layer control
  renders into its container, as a function of the first free element identity.
\<close>

record environment =
  counties :: "feature list"
  fipsToCounty :: "js_number \<rightharpoonup> string"
  string_to_number :: "string \<Rightarrow> js_number"
  control_markup :: "nat \<Rightarrow> node list"

text \<open>\<^verbatim>\<open>(feature.properties as any)?.FIPS\<close>\<close>

definition fips_of :: "feature \<Rightarrow> js_prim" where
  "fips_of feature =
     (case properties feature of None \<Rightarrow> Undefined | Some p \<Rightarrow> get_prop p ''FIPS'')"

text \<open>\<^verbatim>\<open>fipsToCounty[Number(fips)] ?? "Unknown"\<close>\<close>

definition county_name :: "environment \<Rightarrow> js_prim \<Rightarrow> string" where
  "county_name env fips =
     (case fipsToCounty env (to_number (string_to_number env) fips) of
        None \<Rightarrow> ''Unknown''
      | Some n \<Rightarrow> n)"

definition countiesOnEachFeature :: "environment \<Rightarrow> feature \<Rightarrow> path_layer \<Rightarrow> path_layer" where
  "countiesOnEachFeature env feature layer =
     (let fips = fips_of feature
      in if \<not> nullish fips then
           layer_on ''mouseout'' (SetStyle [(''weight'', Num (Finite 1)), (''color'', Str ''gray'')])
             (layer_on ''mouseover''
                (SetStyle [(''weight'', Num (Finite 3)), (''color'', Str ''yellow'')])
                (bindTooltip (Text (county_name env fips @ '' County''))
                   [(''sticky'', Bool True)] layer))
         else layer)"

text \<open>
  \<^verbatim>\<open>L.geoJSON(data, {onEachFeature})\<close>: one vector layer per feature, each passed to
  the callback with its feature.
\<close>

definition geoJSON :: "feature list \<Rightarrow> (feature \<Rightarrow> path_layer \<Rightarrow> path_layer) \<Rightarrow> path_layer list" where
  "geoJSON data onEachFeature = map (\<lambda>f. onEachFeature f new_path) data"

section \<open>The widget and its page\<close>

subsection \<open>State\<close>

text \<open>
  The closures the widget hands to the browser and to Leaflet: the two it passes to
  \<^verbatim>\<open>requestAnimationFrame\<close> in \<^verbatim>\<open>update\<close>, the handler it registers on the map for
  \<^verbatim>\<open>overlayadd\<close>, \<^verbatim>\<open>overlayremove\<close> and \<^verbatim>\<open>baselayerchange\<close> and the frame callback
  that handler requests, the frame callback \<^verbatim>\<open>refreshLayerControlCollapsibles\<close> requests,
  the interval callback, and the visibility listener.
\<close>

datatype callback =
    InitLayersAndUI
  | InvalidateSize
  | OnLayerChange
  | RefreshLayerControlCollapsibles
  | MakeCollapsibles
  | RefreshAllLayers
  | OnVisibilityRefresh

datatype js_error = TypeError | NotFoundError | Error string

datatype visibility = Visible | Hidden

text \<open>
  The layer objects. An Esri feature layer is given by the options \<^verbatim>\<open>wz\<close> creates it
  with; its \<^verbatim>\<open>onEachFeature\<close> is always \<open>workzoneEachFeature\<close>. Layers are shared
  by reference between the widget's fields, the map and the layer control, so they live
  in a heap and are referred to by number.
\<close>

type_synonym tile_options = "(string \<times> js_prim) list"

record feature_layer_options =
  url :: string
  where_clause :: string
  pane :: string
  style :: path_options

datatype layer =
    TileLayer string tile_options
  | GeoJSONLayer string path_options "path_layer list"
  | FeatureLayer feature_layer_options

text \<open>
  The grouped layer control: the base layers and the grouped overlays it was created
  with, its options, and the element it renders itself into.
\<close>

record control =
  baseLayers :: "(string \<times> nat option) list"
  groupedOverlays :: "(string \<times> (string \<times> nat option) list) list"
  collapsed :: bool
  exclusiveGroups :: "string list"
  groupCheckboxes :: bool
  container :: "nat option"

text \<open>What \<^verbatim>\<open>update\<close> reads of its argument, and what it writes to the console.\<close>

record data_column =
  roles :: "(string \<times> bool) list"
  displayName :: string
  column_values :: "js_prim list"

record categorical =
  categories :: "data_column list option"
  measures :: "data_column list option"

record data_view =
  categorical :: "categorical option"

record update_options =
  dataViews :: "data_view list option"

record constructor_options =
  element :: "nat option"

datatype log_arg = LogText string | LogRoles "(string \<times> bool) list" | LogValues "js_prim list"

text \<open>
  The state: the fields of the class \<^verbatim>\<open>Visual\<close>, under their names; the Leaflet map
  \<^verbatim>\<open>this.map\<close> (fields \<open>map_\<dots>\<close>, the zoom as \<^verbatim>\<open>zoom\<close>, \<^verbatim>\<open>maxZoom\<close> and
  \<^verbatim>\<open>minZoom\<close>); the heap of layers, and the log of the calls of
  \<^verbatim>\<open>refresh()\<close> on them; the window (every callback ever passed to
  \<^verbatim>\<open>requestAnimationFrame\<close>, the ones still waiting for their frame, the running
  intervals with handle, callback and period, the next handle); the document (visibility,
  listeners, the tree, the next element identity); the console.
\<close>

record visual =
  target :: "nat option"
  inited :: bool
  darkMap :: "nat option"
  lightMap :: "nat option"
  countiesLayer :: "nat option"
  layerControl :: "control option"
  truckClosureLayer :: "nat option"
  constructionLayer :: "nat option"
  nightConstructionLayer :: "nat option"
  maintenanceLayer :: "nat option"
  nightMaintenanceLayer :: "nat option"
  emergencyLayer :: "nat option"
  obstructionLayer :: "nat option"
  weatherLayer :: "nat option"
  specialLayer :: "nat option"
  otherLayer :: "nat option"
  autoRefreshTimer :: "nat option"
  map_container :: "nat option"
  map_center :: "real \<times> real"
  map_zoom :: "nat \<times> nat \<times> nat"
  map_panes :: "(string \<times> string) list"
  map_layers :: "nat list"
  map_listeners :: "(string \<times> callback) list"
  map_size_checks :: nat
  map_removed :: bool
  heap :: "nat \<rightharpoonup> layer"
  next_ref :: nat
  refreshed :: "nat list"
  frame_requests :: "callback list"
  frame_queue :: "callback list"
  intervals :: "(nat \<times> callback \<times> int) list"
  next_handle :: nat
  visibilityState :: visibility
  document_listeners :: "(string \<times> callback) list"
  dom :: "node list"
  next_node :: nat
  console :: "log_arg list list"

text \<open>
  A page before the widget is constructed, given its document: the class fields have
  their initialisers (\<^verbatim>\<open>inited = false\<close>, \<^verbatim>\<open>autoRefreshTimer = null\<close>), nothing runs,
  and timer handles start at 1, as they do in a browser.
\<close>

definition page :: "node list \<Rightarrow> visual" where
  "page document =
     \<lparr>target = None, inited = False, darkMap = None, lightMap = None, countiesLayer = None,
      layerControl = None, truckClosureLayer = None, constructionLayer = None,
      nightConstructionLayer = None, maintenanceLayer = None, nightMaintenanceLayer = None,
      emergencyLayer = None, obstructionLayer = None, weatherLayer = None,
      specialLayer = None, otherLayer = None, autoRefreshTimer = None,
      map_container = None, map_center = (0, 0), map_zoom = (0, 0, 0), map_panes = [],
      map_layers = [], map_listeners = [], map_size_checks = 0, map_removed = False,
      heap = Map.empty, next_ref = 0, refreshed = [],
      frame_requests = [], frame_queue = [], intervals = [], next_handle = 1,
      visibilityState = Visible, document_listeners = [],
      dom = document, next_node = Suc (fold max (ids document) 0), console = []\<rparr>"

subsection \<open>Browser and Leaflet operations\<close>

definition requestAnimationFrame :: "callback \<Rightarrow> visual \<Rightarrow> visual" where
  "requestAnimationFrame cb s =
     s\<lparr>frame_requests := frame_requests s @ [cb], frame_queue := frame_queue s @ [cb]\<rparr>"

definition setInterval :: "callback \<Rightarrow> int \<Rightarrow> visual \<Rightarrow> nat \<times> visual" where
  "setInterval cb ms s =
     (next_handle s,
      s\<lparr>intervals := intervals s @ [(next_handle s, cb, ms)], next_handle := Suc (next_handle s)\<rparr>)"

definition clearInterval :: "nat \<Rightarrow> visual \<Rightarrow> visual" where
  "clearInterval h s = s\<lparr>intervals := filter (\<lambda>(h', cb, ms). h' \<noteq> h) (intervals s)\<rparr>"

text \<open>
  \<^verbatim>\<open>document.addEventListener\<close> does not add a listener that is already there;
  \<^verbatim>\<open>removeEventListener\<close> takes it away.
\<close>

definition addEventListener :: "string \<Rightarrow> callback \<Rightarrow> visual \<Rightarrow> visual" where
  "addEventListener type cb s =
     (if (type, cb) \<in> set (document_listeners s) then s
      else s\<lparr>document_listeners := document_listeners s @ [(type, cb)]\<rparr>)"

definition removeEventListener :: "string \<Rightarrow> callback \<Rightarrow> visual \<Rightarrow> visual" where
  "removeEventListener type cb s =
     s\<lparr>document_listeners := filter (\<lambda>l. l \<noteq> (type, cb)) (document_listeners s)\<rparr>"

definition console_log :: "log_arg list \<Rightarrow> visual \<Rightarrow> visual" where
  "console_log args s = s\<lparr>console := console s @ [args]\<rparr>"

text \<open>A new layer object, and \<^verbatim>\<open>layer.addTo(this.map)\<close>.\<close>

definition new_layer :: "layer \<Rightarrow> visual \<Rightarrow> nat \<times> visual" where
  "new_layer l s = (next_ref s, s\<lparr>heap := (heap s)(next_ref s \<mapsto> l), next_ref := Suc (next_ref s)\<rparr>)"

definition addTo :: "nat \<Rightarrow> visual \<Rightarrow> visual" where
  "addTo l s = (if l \<in> set (map_layers s) then s else s\<lparr>map_layers := map_layers s @ [l]\<rparr>)"

text \<open>\<^verbatim>\<open>this.map.on(types, fn)\<close>: one registration for each of the types.\<close>

definition map_on :: "string list \<Rightarrow> callback \<Rightarrow> visual \<Rightarrow> visual" where
  "map_on types cb s = s\<lparr>map_listeners := map_listeners s @ map (\<lambda>t. (t, cb)) types\<rparr>"

text \<open>\<^verbatim>\<open>this.map.remove()\<close>: the map lets go of its layers and panes.\<close>

definition map_remove :: "visual \<Rightarrow> visual" where
  "map_remove s = s\<lparr>map_layers := [], map_panes := [], map_removed := True\<rparr>"

subsection \<open>Construction\<close>

definition createMapContainer :: "visual \<Rightarrow> js_error + visual" where
  "createMapContainer s =
     (let s1 = (case getElementById ''mapid'' (dom s) of
                  None \<Rightarrow> s
                | Some existing \<Rightarrow> s\<lparr>dom := remove_in existing (dom s)\<rparr>);
          container_div = Element (next_node s1)
                  ((createElement ''div'')
                     \<lparr>elem_id := ''mapid'',
                      css := (\<lambda>property. [])(''width'' := ''100%'', ''height'' := ''100%'')\<rparr>) [];
          s2 = s1\<lparr>next_node := Suc (next_node s1)\<rparr>
      in case target s2 of
           None \<Rightarrow> Inl TypeError
         | Some t \<Rightarrow> Inr (s2\<lparr>dom := append_child_in t container_div (dom s2)\<rparr>))"

text \<open>
  \<^verbatim>\<open>initMap\<close>. \<^verbatim>\<open>L.map("mapid", \<dots>)\<close> looks the container up in the document and throws
  when there is none (the target was not in the document). Only the dark basemap is added
  to the map.
\<close>

definition initMap :: "visual \<Rightarrow> js_error + visual" where
  \<open>initMap s =
     (case getElementById ''mapid'' (dom s) of
        None \<Rightarrow> Inl (Error ''Map container not found.'')
      | Some c \<Rightarrow>
          (let s1 = s\<lparr>map_container := Some c, map_center := (35.54, - 79.24),
                      map_zoom := (7, 20, 3),
                      map_panes := [(''counties'', ''400''), (''workzones'', ''450'')]\<rparr>;
               (d, s2) = new_layer
                 (TileLayer ''https://{s}.basemaps.cartocdn.com/dark_all/{z}/{x}/{y}{r}.png''
                    [(''attribution'', Str ''&copy; <a href="https://carto.com/">CARTO</a>''),
                     (''subdomains'', Str ''abcd''), (''maxZoom'', Num (Finite 20))]) s1;
               s3 = addTo d (s2\<lparr>darkMap := Some d\<rparr>);
               (l, s4) = new_layer
                 (TileLayer ''https://tile.openstreetmap.org/{z}/{x}/{y}.png''
                    [(''maxZoom'', Num (Finite 19)),
                     (''attribution'', Str ''&copy; <a href="https://www.openstreetmap.org/copyright">OpenStreetMap</a> contributors'')]) s3
           in Inr (s4\<lparr>lightMap := Some l\<rparr>)))\<close>

definition constructor :: "constructor_options option \<Rightarrow> node list \<Rightarrow> js_error + visual" where
  "constructor options document =
     (let s = (page document)\<lparr>target := (case options of None \<Rightarrow> None | Some opts \<Rightarrow> element opts)\<rparr>
      in case createMapContainer s of
           Inl err \<Rightarrow> Inl err
         | Inr s1 \<Rightarrow> initMap s1)"

subsection \<open>\<^verbatim>\<open>update\<close> and \<^verbatim>\<open>destroy\<close>\<close>

definition log_category :: "data_column \<Rightarrow> visual \<Rightarrow> visual" where
  "log_category cat s =
     console_log [LogText ''Values:'', LogValues (column_values cat)]
       (console_log [LogText ''DisplayName:'', LogText (displayName cat)]
          (console_log [LogText ''Category role:'', LogRoles (roles cat)] s))"

definition log_measure :: "data_column \<Rightarrow> visual \<Rightarrow> visual" where
  "log_measure val s =
     console_log [LogText ''Values:'', LogValues (column_values val)]
       (console_log [LogText ''DisplayName:'', LogText (displayName val)]
          (console_log [LogText ''Measure role:'', LogRoles (roles val)] s))"

text \<open>
  The second half of \<^verbatim>\<open>update\<close>, which reads the data views and only logs: "No data"
  when there is no first data view or it has no categorical part, otherwise three lines
  for every category and three for every measure.
\<close>

definition log_data :: "update_options \<Rightarrow> visual \<Rightarrow> visual" where
  "log_data options s =
     (let dataView = (case dataViews options of
                        None \<Rightarrow> None
                      | Some [] \<Rightarrow> None
                      | Some (dv # rest) \<Rightarrow> Some dv)
      in case dataView of
           None \<Rightarrow> console_log [LogText ''No data''] s
         | Some dv \<Rightarrow>
             (case categorical dv of
                None \<Rightarrow> console_log [LogText ''No data''] s
              | Some c \<Rightarrow>
                  (let s1 = (case categories c of
                               None \<Rightarrow> s
                             | Some cats \<Rightarrow> fold log_category cats s)
                   in case measures c of
                        None \<Rightarrow> s1
                      | Some vals \<Rightarrow> fold log_measure vals s1)))"

text \<open>
  \<^verbatim>\<open>update\<close>: on the first call the flag is set and \<^verbatim>\<open>initLayersAndUI\<close> is deferred
  by one frame; every call defers \<^verbatim>\<open>invalidateSize\<close>; then the data views are logged.
\<close>

definition update :: "update_options \<Rightarrow> visual \<Rightarrow> visual" where
  "update options s =
     (let s1 = (if \<not> inited s then requestAnimationFrame InitLayersAndUI (s\<lparr>inited := True\<rparr>)
                else s);
          s2 = requestAnimationFrame InvalidateSize s1
      in log_data options s2)"

text \<open>
  \<^verbatim>\<open>startAutoRefresh\<close>. The test \<^verbatim>\<open>if (this.autoRefreshTimer)\<close> is one of truthiness:
  it fails for \<open>null\<close> and for the handle \<open>0\<close>.
\<close>

definition startAutoRefresh :: "int \<Rightarrow> visual \<Rightarrow> visual" where
  "startAutoRefresh ms s =
     (let s1 = (case autoRefreshTimer s of
                  None \<Rightarrow> s
                | Some h \<Rightarrow> if h \<noteq> 0 then clearInterval h s else s)
      in if ms > 0
         then (let (h, s2) = setInterval RefreshAllLayers ms s1
               in s2\<lparr>autoRefreshTimer := Some h\<rparr>)
         else s1)"

definition destroy :: "visual \<Rightarrow> visual" where
  "destroy s =
     (let s1 = (case autoRefreshTimer s of
                  None \<Rightarrow> s
                | Some h \<Rightarrow> if h \<noteq> 0 then clearInterval h s else s)
      in map_remove (removeEventListener ''visibilitychange'' OnVisibilityRefresh s1))"

subsection \<open>\<^verbatim>\<open>initLayersAndUI\<close>\<close>

definition workzoneLinePolyStyle :: path_options where
  "workzoneLinePolyStyle =
     [(''pane'', Str ''workzones''), (''interactive'', Bool True), (''weight'', Num (Finite 8)),
      (''color'', Str ''blue''), (''opacity'', Num (Finite 0.5))]"

definition tims :: string where
  "tims = ''https://services.arcgis.com/NuWFvHYDMVmmxMeM/ArcGIS/rest/services/NCDOT_TIMSIncidentsByIncidentType/FeatureServer/1''"

definition wz :: "string \<Rightarrow> visual \<Rightarrow> nat \<times> visual" where
  "wz predicate s =
     new_layer
       (FeatureLayer
          \<lparr>url = tims, where_clause = predicate, pane = ''workzones'',
           style = workzoneLinePolyStyle\<rparr>) s"

text \<open>
  Statements run one after the other, each on the state the one before left; an assignment
  of a newly created layer to a field creates the layer and then sets the field.
\<close>

definition statements :: "(visual \<Rightarrow> visual) list \<Rightarrow> visual \<Rightarrow> visual" where
  "statements fs s = fold (\<lambda>f. f) fs s"

definition assign :: "(nat \<Rightarrow> visual \<Rightarrow> visual) \<Rightarrow> (visual \<Rightarrow> nat \<times> visual) \<Rightarrow> visual \<Rightarrow> visual" where
  "assign field create s = (case create s of (l, s1) \<Rightarrow> field l s1)"

text \<open>
  The function is modelled in the four parts its comments divide it into. First the
  county overlay, created from the bundled counties and added to the map.
\<close>

definition init_county_overlay :: "environment \<Rightarrow> visual \<Rightarrow> visual" where
  "init_county_overlay env =
     statements
       [assign (\<lambda>l s. s\<lparr>countiesLayer := Some l\<rparr>)
          (new_layer
             (GeoJSONLayer ''counties''
                [(''fill'', Bool True), (''fillOpacity'', Num (Finite 0)), (''fillColor'', Str ''#000''),
                 (''weight'', Num (Finite 1)), (''color'', Str ''gray''), (''dashArray'', Str ''3'')]
                (geoJSON (counties env) (countiesOnEachFeature env)))),
        (\<lambda>s. case countiesLayer s of
               None \<Rightarrow> s
             | Some c \<Rightarrow> addTo c s)]"

text \<open>
  The ten work zone layers, each with its query predicate; the construction layer alone
  is added to the map. (The closing quote of each predicate is written \<open>CHR 0x27\<close>.)
\<close>

definition init_work_zones :: "visual \<Rightarrow> visual" where
  "init_work_zones =
     statements
       [assign (\<lambda>l s. s\<lparr>truckClosureLayer := Some l\<rparr>)
          (wz (''IncidentType = 'Truck Closure'' @ [CHR 0x27])),
        assign (\<lambda>l s. s\<lparr>constructionLayer := Some l\<rparr>)
          (wz (''IncidentType = 'Construction'' @ [CHR 0x27])),
        assign (\<lambda>l s. s\<lparr>nightConstructionLayer := Some l\<rparr>)
          (wz (''IncidentType = 'Night Time Construction'' @ [CHR 0x27])),
        assign (\<lambda>l s. s\<lparr>maintenanceLayer := Some l\<rparr>)
          (wz (''IncidentType = 'Maintenance'' @ [CHR 0x27])),
        assign (\<lambda>l s. s\<lparr>nightMaintenanceLayer := Some l\<rparr>)
          (wz (''IncidentType = 'Night Time Maintenance'' @ [CHR 0x27])),
        assign (\<lambda>l s. s\<lparr>emergencyLayer := Some l\<rparr>)
          (wz (''IncidentType = 'Emergency Road Work'' @ [CHR 0x27])),
        assign (\<lambda>l s. s\<lparr>obstructionLayer := Some l\<rparr>)
          (wz (''IncidentType = 'Road Obstruction'' @ [CHR 0x27])),
        assign (\<lambda>l s. s\<lparr>weatherLayer := Some l\<rparr>)
          (wz (''IncidentType = 'Weather Event'' @ [CHR 0x27])),
        assign (\<lambda>l s. s\<lparr>specialLayer := Some l\<rparr>)
          (wz (''IncidentType = 'Special Event'' @ [CHR 0x27])),
        assign (\<lambda>l s. s\<lparr>otherLayer := Some l\<rparr>)
          (wz (''IncidentType = 'Other'' @ [CHR 0x27])),
        (\<lambda>s. case constructionLayer s of
               None \<Rightarrow> s
             | Some c \<Rightarrow> addTo c s)]"

text \<open>
  The layer control, with both basemaps and the two groups of overlays, added to the map:
  the control gets a container element in the map's container, filled with the markup of
  the environment. Then the handler for the three layer events.
\<close>

definition init_layer_control :: "environment \<Rightarrow> visual \<Rightarrow> visual" where
  "init_layer_control env s =
     (let baseMaps = [(''Dark Basemap'', darkMap s), (''Light Basemap'', lightMap s)];
          overlays =
            [(''Boundaries'', [(''Counties'', countiesLayer s)]),
             (''Work Zones'',
              [(''Truck Closure'', truckClosureLayer s),
               (''Construction'', constructionLayer s),
               (''Night Construction'', nightConstructionLayer s),
               (''Maintenance'', maintenanceLayer s),
               (''Night Time Maintenance'', nightMaintenanceLayer s),
               (''Emergency Road Work'', emergencyLayer s),
               (''Road Obstruction'', obstructionLayer s),
               (''Weather Event'', weatherLayer s),
               (''Special Event'', specialLayer s),
               (''Other'', otherLayer s)])];
          c = next_node s;
          markup = control_markup env (Suc c);
          s1 = s\<lparr>layerControl :=
                    Some \<lparr>baseLayers = baseMaps, groupedOverlays = overlays, collapsed = False,
                          exclusiveGroups = [''Boundaries''], groupCheckboxes = False,
                          container = Some c\<rparr>,
                  dom := (case map_container s of
                            None \<Rightarrow> dom s
                          | Some m \<Rightarrow>
                              append_child_in m
                                (Element c
                                   ((createElement ''div'')\<lparr>classList := [''leaflet-control-layers'']\<rparr>)
                                   markup)
                                (dom s)),
                  next_node := Suc c + length (ids markup)\<rparr>
      in map_on [''overlayadd'', ''overlayremove'', ''baselayerchange''] OnLayerChange s1)"

definition init_auto_refresh :: "visual \<Rightarrow> visual" where
  "init_auto_refresh s =
     addEventListener ''visibilitychange'' OnVisibilityRefresh
       (startAutoRefresh (6 * 60 * 60 * 1000) s)"

definition initLayersAndUI :: "environment \<Rightarrow> visual \<Rightarrow> visual" where
  "initLayersAndUI env =
     statements
       [init_county_overlay env, init_work_zones, init_layer_control env, init_auto_refresh]"

subsection \<open>Refreshing\<close>

text \<open>
  \<^verbatim>\<open>(l as any)?.refresh?.()\<close>: nothing for an undefined field or for a layer without a
  \<^verbatim>\<open>refresh\<close> method; a feature layer queries its source again, which is logged.
\<close>

definition refresh :: "nat option \<Rightarrow> visual \<Rightarrow> visual" where
  "refresh l s =
     (case l of
        None \<Rightarrow> s
      | Some r \<Rightarrow>
          (case heap s r of
             Some (FeatureLayer opts) \<Rightarrow> s\<lparr>refreshed := refreshed s @ [r]\<rparr>
           | _ \<Rightarrow> s))"

definition refreshAllLayers :: "visual \<Rightarrow> visual" where
  "refreshAllLayers s =
     (let layers =
            [truckClosureLayer s, constructionLayer s, nightConstructionLayer s,
             maintenanceLayer s, nightMaintenanceLayer s, emergencyLayer s,
             obstructionLayer s, weatherLayer s, specialLayer s, otherLayer s]
      in fold refresh layers s)"

definition onVisibilityRefresh :: "visual \<Rightarrow> visual" where
  "onVisibilityRefresh s = (if visibilityState s = Visible then refreshAllLayers s else s)"

subsection \<open>Collapsible groups\<close>

text \<open>
  The two closures of \<^verbatim>\<open>makeGroupedLayerCollapsible\<close>, over the header and the items.
  An item that has left the document is not followed by the model: it reads as not
  hidden.
\<close>

definition setCollapsed :: "nat \<Rightarrow> nat list \<Rightarrow> bool \<Rightarrow> node list \<Rightarrow> node list" where
  "setCollapsed headerLabel items is_collapsed ns =
     update_in headerLabel (classList_toggle ''is-collapsed'' is_collapsed)
       (fold (\<lambda>el. update_in el
                (\<lambda>e. e\<lparr>css := (css e)(''display'' := (if is_collapsed then ''none'' else []))\<rparr>))
          items ns)"

definition toggle :: "nat \<Rightarrow> nat list \<Rightarrow> node list \<Rightarrow> node list" where
  "toggle headerLabel items ns =
     setCollapsed headerLabel items
       (\<not> (case items of
             [] \<Rightarrow> False
           | el # rest \<Rightarrow>
               (case deref el ns of
                  None \<Rightarrow> False
                | Some (i, e, cs) \<Rightarrow> css e ''display'' = ''none'')))
       ns"

text \<open>
  The second half of \<^verbatim>\<open>makeGroupedLayerCollapsible\<close>, from \<^verbatim>\<open>const items\<close> on.
  \<^verbatim>\<open>insertBefore\<close> throws when the name span is not a child of the header; the function
  stops there, with the header already marked.
\<close>

definition wire :: "nat \<Rightarrow> nat \<Rightarrow> nat \<Rightarrow> visual \<Rightarrow> visual \<times> js_error option" where
  "wire nameSpan headerLabel groupRoot s =
     (let items = filter (\<lambda>el. el \<noteq> headerLabel) (children groupRoot (dom s));
          has_caret = (querySelectorAll headerLabel ''gli-caret'' (dom s) \<noteq> []);
          caret = Element (next_node s)
                    ((createElement ''span'')
                       \<lparr>classList := [''gli-caret''],
                        attrs := [(''role'', ''button''), (''aria-label'', ''Toggle group'')],
                        tabIndex := Some 0\<rparr>) []
      in if \<not> has_caret \<and> nameSpan \<notin> set (children headerLabel (dom s))
         then (s\<lparr>next_node := Suc (next_node s)\<rparr>, Some NotFoundError)
         else
           (let s1 = (if has_caret then s
                      else s\<lparr>dom := insert_before_in headerLabel caret nameSpan (dom s),
                             next_node := Suc (next_node s)\<rparr>);
                d1 = update_in headerLabel
                       (\<lambda>e. e\<lparr>css := (css e)(''cursor'' := ''pointer''),
                              event_listeners := event_listeners e @
                                [(''click'', ClickToggle headerLabel items),
                                 (''keydown'', KeydownToggle headerLabel items)],
                              click_propagation_disabled := True,
                              scroll_propagation_disabled := True\<rparr>)
                       (dom s1)
            in (s1\<lparr>dom := setCollapsed headerLabel items True d1\<rparr>, None)))"

text \<open>
  The first half: from the control and the group's name to the name span, the header label
  and the group root, or nothing when any of them is not found. Labels are compared
  trimmed and in lower case; the header is the nearest ancestor of the span that is a
  group label, or else the span itself; the root is the nearest ancestor that is a group,
  or else the parent of the header.
\<close>

definition locate :: "control \<Rightarrow> string \<Rightarrow> node list \<Rightarrow> (nat \<times> nat \<times> nat) option" where
  "locate ctl groupName ns =
     (case container ctl of
        None \<Rightarrow> None
      | Some c \<Rightarrow>
          (case find (\<lambda>(i, e, cs). toLowerCase (trim (textContent_in cs)) = toLowerCase (trim groupName))
                  (querySelectorAll c ''leaflet-control-layers-group-name'' ns) of
             None \<Rightarrow> None
           | Some (nameSpan, e, cs) \<Rightarrow>
               (let headerLabel =
                      (case closest ''leaflet-control-layers-group-label'' nameSpan ns of
                         None \<Rightarrow> nameSpan
                       | Some h \<Rightarrow> h);
                    groupRoot =
                      (case closest ''leaflet-control-layers-group'' nameSpan ns of
                         None \<Rightarrow> parentElement headerLabel ns
                       | Some r \<Rightarrow> Some r)
                in case groupRoot of
                     None \<Rightarrow> None
                   | Some r \<Rightarrow> Some (nameSpan, headerLabel, r))))"

text \<open>\<^verbatim>\<open>hdr._gliWired\<close>, read through the reference.\<close>

definition wired :: "nat \<Rightarrow> node list \<Rightarrow> bool" where
  "wired headerLabel ns =
     (case deref headerLabel ns of
        None \<Rightarrow> False
      | Some (i, hdr, cs) \<Rightarrow> gliWired hdr)"

definition makeGroupedLayerCollapsible ::
  "control \<Rightarrow> string \<Rightarrow> visual \<Rightarrow> visual \<times> js_error option" where
  "makeGroupedLayerCollapsible ctl groupName s =
     (case locate ctl groupName (dom s) of
        None \<Rightarrow> (s, None)
      | Some (nameSpan, headerLabel, groupRoot) \<Rightarrow>
          if wired headerLabel (dom s) then (s, None)
          else wire nameSpan headerLabel groupRoot
                 (s\<lparr>dom := update_in headerLabel (\<lambda>hdr. hdr\<lparr>gliWired := True\<rparr>) (dom s)\<rparr>))"

definition refreshLayerControlCollapsibles :: "visual \<Rightarrow> visual" where
  "refreshLayerControlCollapsibles s =
     (case layerControl s of
        None \<Rightarrow> s
      | Some c \<Rightarrow> requestAnimationFrame MakeCollapsibles s)"

text \<open>
  The frame callback of \<^verbatim>\<open>refreshLayerControlCollapsibles\<close>: the two groups in turn; an
  exception in the first call ends the callback.
\<close>

definition make_collapsibles :: "visual \<Rightarrow> visual" where
  "make_collapsibles s =
     (case layerControl s of
        None \<Rightarrow> s
      | Some c \<Rightarrow>
          (case makeGroupedLayerCollapsible c ''Boundaries'' s of
             (s1, Some err) \<Rightarrow> s1
           | (s1, None) \<Rightarrow> fst (makeGroupedLayerCollapsible c ''Work Zones'' s1)))"

subsection \<open>Events\<close>

text \<open>
  A DOM event goes from its target up through the ancestors; on each element the
  listeners of its type run in the order they were added. The click listener stops the
  propagation, the key listener toggles on Enter and Space only.
\<close>

fun run_listener :: "string \<Rightarrow> listener \<Rightarrow> node list \<Rightarrow> node list" where
  "run_listener key (ClickToggle headerLabel items) ns = toggle headerLabel items ns"
| "run_listener key (KeydownToggle headerLabel items) ns =
     (if key = ''Enter'' \<or> key = '' '' then toggle headerLabel items ns else ns)"

fun stops_propagation :: "listener \<Rightarrow> bool" where
  "stops_propagation (ClickToggle headerLabel items) = True"
| "stops_propagation (KeydownToggle headerLabel items) = False"

fun bubble :: "string \<Rightarrow> string \<Rightarrow> nat list \<Rightarrow> node list \<Rightarrow> node list" where
  "bubble type key [] ns = ns"
| "bubble type key (x # path) ns =
     (let ls = (case deref x ns of
                  None \<Rightarrow> []
                | Some (i, e, cs) \<Rightarrow> map snd (filter (\<lambda>(t, l). t = type) (event_listeners e)));
          ns1 = fold (run_listener key) ls ns
      in if list_ex stops_propagation ls then ns1 else bubble type key path ns1)"

definition dispatch :: "string \<Rightarrow> string \<Rightarrow> nat \<Rightarrow> node list \<Rightarrow> node list" where
  "dispatch type key x ns = bubble type key (map fst (path_in x ns)) ns"

fun run_callback :: "environment \<Rightarrow> callback \<Rightarrow> visual \<Rightarrow> visual" where
  "run_callback env InitLayersAndUI s = initLayersAndUI env s"
| "run_callback env InvalidateSize s = s\<lparr>map_size_checks := Suc (map_size_checks s)\<rparr>"
| "run_callback env OnLayerChange s = requestAnimationFrame RefreshLayerControlCollapsibles s"
| "run_callback env RefreshLayerControlCollapsibles s = refreshLayerControlCollapsibles s"
| "run_callback env MakeCollapsibles s = make_collapsibles s"
| "run_callback env RefreshAllLayers s = refreshAllLayers s"
| "run_callback env OnVisibilityRefresh s = onVisibilityRefresh s"

text \<open>
  What can happen to a constructed widget before it is destroyed: the host calls
  \<^verbatim>\<open>update\<close>; the browser runs the frame callbacks that are waiting (those requested
  meanwhile wait for the next frame); an interval elapses; the page's visibility changes;
  the map fires a layer event; the user clicks an element or presses a key on it.
\<close>

datatype event =
    Update update_options
  | AnimationFrame
  | IntervalElapsed nat
  | VisibilityChange visibility
  | MapEvent string
  | Click nat
  | KeyDown nat string

fun step :: "environment \<Rightarrow> event \<Rightarrow> visual \<Rightarrow> visual" where
  "step env (Update options) s = update options s"
| "step env AnimationFrame s = fold (run_callback env) (frame_queue s) (s\<lparr>frame_queue := []\<rparr>)"
| "step env (IntervalElapsed h) s =
     fold (run_callback env)
       (map (\<lambda>(h', cb, ms). cb) (filter (\<lambda>(h', cb, ms). h' = h) (intervals s))) s"
| "step env (VisibilityChange v) s =
     fold (run_callback env)
       (map snd (filter (\<lambda>(t, cb). t = ''visibilitychange'') (document_listeners s)))
       (s\<lparr>visibilityState := v\<rparr>)"
| "step env (MapEvent type) s =
     fold (run_callback env) (map snd (filter (\<lambda>(t, cb). t = type) (map_listeners s))) s"
| "step env (Click x) s = s\<lparr>dom := dispatch ''click'' [] x (dom s)\<rparr>"
| "step env (KeyDown x key) s = s\<lparr>dom := dispatch ''keydown'' key x (dom s)\<rparr>"

definition run :: "environment \<Rightarrow> event list \<Rightarrow> visual \<Rightarrow> visual" where
  "run env es s = fold (step env) es s"

subsection \<open>Observations\<close>

text \<open>The query predicate of the layer a field of the widget refers to.\<close>

definition where_of :: "visual \<Rightarrow> nat option \<Rightarrow> string option" where
  "where_of s l =
     (case l of
        None \<Rightarrow> None
      | Some r \<Rightarrow>
          (case heap s r of
             Some (FeatureLayer opts) \<Rightarrow> Some (where_clause opts)
           | _ \<Rightarrow> None))"

text \<open>
  The predicate the specification gives for an incident type: \<^verbatim>\<open>IncidentType = '<Type>'\<close>.
\<close>

definition spec_predicate :: "string \<Rightarrow> string" where
  "spec_predicate incident_type = ''IncidentType = '' @ [CHR 0x27] @ incident_type @ [CHR 0x27]"

text \<open>
  The incident layers that \<^verbatim>\<open>refreshAllLayers\<close> reaches: the fields that are set and
  refer to a feature layer, in the order of the function's list.
\<close>

definition incident_layers :: "visual \<Rightarrow> nat list" where
  "incident_layers s =
     concat (map (\<lambda>l. case l of
                         None \<Rightarrow> []
                       | Some r \<Rightarrow>
                           (case heap s r of
                              Some (FeatureLayer opts) \<Rightarrow> [r]
                            | _ \<Rightarrow> []))
       [truckClosureLayer s, constructionLayer s, nightConstructionLayer s,
        maintenanceLayer s, nightMaintenanceLayer s, emergencyLayer s,
        obstructionLayer s, weatherLayer s, specialLayer s, otherLayer s])"

text \<open>
  The state \<open>Constructed\<close> of the specification: the map has its basemap only; there
  are no overlay layers, no layer control and no refresh timer.
\<close>

definition constructed :: "visual \<Rightarrow> bool" where
  "constructed s =
     (countiesLayer s = None \<and> truckClosureLayer s = None \<and> constructionLayer s = None
      \<and> nightConstructionLayer s = None \<and> maintenanceLayer s = None
      \<and> nightMaintenanceLayer s = None \<and> emergencyLayer s = None
      \<and> obstructionLayer s = None \<and> weatherLayer s = None \<and> specialLayer s = None
      \<and> otherLayer s = None \<and> layerControl s = None \<and> autoRefreshTimer s = None
      \<and> intervals s = [] \<and> map_layers s = [0] \<and> darkMap s = Some 0)"

text \<open>The deferred initialisation has not run yet: it was never requested, or it is waiting.\<close>

definition pending :: "visual \<Rightarrow> bool" where
  "pending s = (\<not> inited s \<or> InitLayersAndUI \<in> set (frame_queue s))"

text \<open>Whether a layer is on the map, and the basemaps of the control that are not.\<close>

definition rendered :: "visual \<Rightarrow> nat option \<Rightarrow> bool" where
  "rendered s l = (case l of None \<Rightarrow> False | Some r \<Rightarrow> r \<in> set (map_layers s))"

definition basemaps :: "visual \<Rightarrow> (string \<times> nat option) list" where
  "basemaps s = (case layerControl s of None \<Rightarrow> [] | Some c \<Rightarrow> baseLayers c)"

definition work_zones :: "visual \<Rightarrow> (string \<times> nat option) list" where
  "work_zones s =
     (case layerControl s of
        None \<Rightarrow> []
      | Some c \<Rightarrow> concat (map snd (filter (\<lambda>(group, ls). group = ''Work Zones'') (groupedOverlays c))))"

subsection \<open>The states a widget goes through\<close>

text \<open>
  A freshly constructed widget: the state \<open>Constructed\<close>, with the two basemaps as the
  only layers and nothing registered anywhere.
\<close>

definition fresh :: "visual \<Rightarrow> bool" where
  "fresh s =
     (constructed s \<and> lightMap s = Some 1 \<and> next_ref s = 2 \<and> next_handle s = 1
      \<and> map_listeners s = [] \<and> document_listeners s = [])"

text \<open>
  An initialised widget: the eleven overlays exist, the control holds them, the timer
  runs and the two listeners are registered.
\<close>

definition initialised :: "visual \<Rightarrow> bool" where
  "initialised s =
     (inited s \<and> darkMap s = Some 0 \<and> lightMap s = Some 1
      \<and> countiesLayer s = Some 2 \<and> truckClosureLayer s = Some 3
      \<and> constructionLayer s = Some 4 \<and> nightConstructionLayer s = Some 5
      \<and> maintenanceLayer s = Some 6 \<and> nightMaintenanceLayer s = Some 7
      \<and> emergencyLayer s = Some 8 \<and> obstructionLayer s = Some 9
      \<and> weatherLayer s = Some 10 \<and> specialLayer s = Some 11 \<and> otherLayer s = Some 12
      \<and> incident_layers s = [3, 4, 5, 6, 7, 8, 9, 10, 11, 12]
      \<and> map_layers s = [0, 2, 4]
      \<and> basemaps s = [(''Dark Basemap'', Some 0), (''Light Basemap'', Some 1)]
      \<and> work_zones s =
          [(''Truck Closure'', Some 3), (''Construction'', Some 4),
           (''Night Construction'', Some 5), (''Maintenance'', Some 6),
           (''Night Time Maintenance'', Some 7), (''Emergency Road Work'', Some 8),
           (''Road Obstruction'', Some 9), (''Weather Event'', Some 10),
           (''Special Event'', Some 11), (''Other'', Some 12)]
      \<and> autoRefreshTimer s = Some 1 \<and> intervals s = [(1, RefreshAllLayers, 21600000)]
      \<and> next_handle s = 2
      \<and> document_listeners s = [(''visibilitychange'', OnVisibilityRefresh)]
      \<and> map_listeners s =
          [(''overlayadd'', OnLayerChange), (''overlayremove'', OnLayerChange),
           (''baselayerchange'', OnLayerChange)])"

text \<open>
  The invariant of the life cycle: the initialisation has been requested once if the flag
  is set and never otherwise; before the first update nothing waits for a frame; while
  the initialisation waits, it heads the queue, followed by size checks only, and the
  widget is still fresh; afterwards the widget is initialised.
\<close>

definition lifecycle_inv :: "visual \<Rightarrow> bool" where
  "lifecycle_inv s =
     (count_list (frame_requests s) InitLayersAndUI = (if inited s then 1 else 0)
      \<and> (if \<not> inited s then frame_queue s = [] \<and> fresh s
         else if InitLayersAndUI \<in> set (frame_queue s)
         then (\<exists>k. frame_queue s = InitLayersAndUI # replicate k InvalidateSize) \<and> fresh s
         else initialised s))"

text \<open>
  A step that leaves the layers, the control, the timer and the listeners alone: it
  changes at most the document, the refresh log and the count of size checks, and
  requests frames for callbacks other than the initialisation.
\<close>

definition ordinary :: "visual \<Rightarrow> visual \<Rightarrow> bool" where
  "ordinary s t =
     (\<exists>d n q rf sz.
        t = s\<lparr>dom := d, next_node := n, frame_requests := frame_requests s @ q,
              frame_queue := frame_queue s @ q, refreshed := rf, map_size_checks := sz\<rparr>
        \<and> InitLayersAndUI \<notin> set q)"

text \<open>The entries of a list of the control whose layer is not on the map.\<close>

definition unrendered :: "visual \<Rightarrow> (string \<times> nat option) list \<Rightarrow> (string \<times> nat option) list" where
  "unrendered s entries = filter (\<lambda>(name, l). \<not> rendered s l) entries"

subsection \<open>A page to evaluate on\<close>

text \<open>
  A document with an empty body, which is the element the host hands to the widget; an
  environment without counties, in which the layer control renders each of its two groups
  as a group element holding a header label, with the group's name in a span, and one
  label for a layer; and the widget constructed there.
\<close>

definition example_document :: "node list" where
  "example_document = [Element 0 (createElement ''body'') []]"

definition example_markup :: "nat \<Rightarrow> node list" where
  "example_markup b =
     [Element b ((createElement ''div'')\<lparr>classList := [''leaflet-control-layers-group'']\<rparr>)
        [Element (b + 1)
           ((createElement ''label'')\<lparr>classList := [''leaflet-control-layers-group-label'']\<rparr>)
           [Element (b + 2)
              ((createElement ''span'')\<lparr>classList := [''leaflet-control-layers-group-name'']\<rparr>)
              [TextNode ''Boundaries'']],
         Element (b + 3) (createElement ''label'') [TextNode ''Counties'']],
      Element (b + 4) ((createElement ''div'')\<lparr>classList := [''leaflet-control-layers-group'']\<rparr>)
        [Element (b + 5)
           ((createElement ''label'')\<lparr>classList := [''leaflet-control-layers-group-label'']\<rparr>)
           [Element (b + 6)
              ((createElement ''span'')\<lparr>classList := [''leaflet-control-layers-group-name'']\<rparr>)
              [TextNode ''Work Zones'']],
         Element (b + 7) (createElement ''label'') [TextNode ''Construction'']]]"

definition example_environment :: environment where
  "example_environment =
     \<lparr>counties = [], fipsToCounty = Map.empty, string_to_number = (\<lambda>s. NaN),
      control_markup = example_markup\<rparr>"

definition example_visual :: visual where
  "example_visual =
     (case constructor (Some \<lparr>element = Some 0\<rparr>) example_document of
        Inl err \<Rightarrow> page example_document
      | Inr s \<Rightarrow> s)"

subsection \<open>Documents that look the same to the wiring\<close>

text \<open>
  What \<open>locate\<close> reads of a document is little: the identities of the elements, the
  text, and for every element whether it has one of three classes. Two elements are alike
  when they agree on these classes, and an element is plain when it has none of them.
\<close>

definition group_classes :: "string list" where
  "group_classes =
     [''leaflet-control-layers-group-name'', ''leaflet-control-layers-group-label'',
      ''leaflet-control-layers-group'']"

definition alike :: "html_element \<Rightarrow> html_element \<Rightarrow> bool" where
  "alike e e' = (set (classList e) \<inter> set group_classes = set (classList e') \<inter> set group_classes)"

definition plain :: "html_element \<Rightarrow> bool" where
  "plain e = (set (classList e) \<inter> set group_classes = {})"

text \<open>
  The second of two documents is the first one changed: every element keeps its
  identity and its place, its record is changed as \<open>change\<close> allows for its identity,
  and plain elements without children, with identities in \<open>K\<close>, may have been added.
\<close>

inductive changed :: "(nat \<Rightarrow> html_element \<Rightarrow> html_element \<Rightarrow> bool) \<Rightarrow> nat set \<Rightarrow> node \<Rightarrow> node \<Rightarrow> bool"
  and changed_in :: "(nat \<Rightarrow> html_element \<Rightarrow> html_element \<Rightarrow> bool) \<Rightarrow> nat set \<Rightarrow> node list \<Rightarrow> node list \<Rightarrow> bool"
  for change :: "nat \<Rightarrow> html_element \<Rightarrow> html_element \<Rightarrow> bool" and K :: "nat set"
  where
    leaf: "changed change K (TextNode t) (TextNode t)"
  | elem: "change i e e' \<Longrightarrow> changed_in change K cs cs'
      \<Longrightarrow> changed change K (Element i e cs) (Element i e' cs')"
  | empty: "changed_in change K [] []"
  | cons: "changed change K n n' \<Longrightarrow> changed_in change K ns ns'
      \<Longrightarrow> changed_in change K (n # ns) (n' # ns')"
  | extra: "k \<in> K \<Longrightarrow> plain e \<Longrightarrow> changed_in change K ns ns'
      \<Longrightarrow> changed_in change K ns (Element k e [] # ns')"

text \<open>The listeners for clicks on an element.\<close>

definition click_listeners :: "nat \<Rightarrow> node list \<Rightarrow> listener list" where
  "click_listeners x ns =
     (case deref x ns of
        None \<Rightarrow> []
      | Some (i, e, cs) \<Rightarrow> map snd (filter (\<lambda>(type, l). type = ''click'') (event_listeners e)))"

text \<open>An element of the first document and the element it has become in the second.\<close>

definition same_element ::
  "(nat \<Rightarrow> html_element \<Rightarrow> html_element \<Rightarrow> bool) \<Rightarrow> nat set \<Rightarrow> elem \<Rightarrow> elem \<Rightarrow> bool" where
  "same_element change K x y =
     (case x of (i, e, cs) \<Rightarrow>
        (case y of (i', e', cs') \<Rightarrow> i = i' \<and> change i e e' \<and> changed_in change K cs cs'))"

text \<open>
  A page that holds a layer control already, with the markup of the example environment,
  and the control object that refers to it.
\<close>

definition example_control :: control where
  "example_control =
     \<lparr>baseLayers = [], groupedOverlays = [], collapsed = False,
      exclusiveGroups = [''Boundaries''], groupCheckboxes = False, container = Some 1\<rparr>"

definition example_control_page :: visual where
  "example_control_page =
     page [Element 0 (createElement ''body'')
             [Element 1 ((createElement ''div'')\<lparr>classList := [''leaflet-control-layers'']\<rparr>)
                (example_markup 2)]]"

section \<open>Properties of the tooltips\<close>

subsection \<open>Severity and direction\<close>

lemma sev_total:
  "sev p = ''Low'' \<or> sev p = ''Medium'' \<or> sev p = ''High'' \<or> sev p = ''Not Provided''"
  by (simp add: sev_def)

lemma sev_levels:
  "sev (p(''Severity'' \<mapsto> Num (Finite 1))) = ''Low''"
  "sev (p(''Severity'' \<mapsto> Num (Finite 2))) = ''Medium''"
  "sev (p(''Severity'' \<mapsto> Num (Finite 3))) = ''High''"
  by (simp_all add: sev_def get_prop_def)

lemma sev_other:
  "get_prop p ''Severity'' \<notin> {Num (Finite 1), Num (Finite 2), Num (Finite 3)}
   \<Longrightarrow> sev p = ''Not Provided''"
  by (simp add: sev_def)

lemma sev_absent: "p ''Severity'' = None \<Longrightarrow> sev p = ''Not Provided''"
  by (simp add: sev_def get_prop_def)

lemma direction_codes:
  "direction (p(''Direction'' \<mapsto> Str ''N'')) = Prim (Str ''North'')"
  "direction (p(''Direction'' \<mapsto> Str ''S'')) = Prim (Str ''South'')"
  "direction (p(''Direction'' \<mapsto> Str ''E'')) = Prim (Str ''East'')"
  "direction (p(''Direction'' \<mapsto> Str ''W'')) = Prim (Str ''West'')"
  "direction (p(''Direction'' \<mapsto> Str ''A'')) = Prim (Str ''All'')"
  "direction (p(''Direction'' \<mapsto> Str ''O'')) = Prim (Str ''Outer'')"
  by (simp_all add: direction_def get_prop_def dirMap_def or_else_def)

lemma direction_absent: "p ''Direction'' = None \<Longrightarrow> direction p = Prim (Str ''Not Provided'')"
  by (simp add: direction_def get_prop_def dirMap_def object_prototype_def or_else_def)

lemma direction_not_a_string:
  "\<forall>s. get_prop p ''Direction'' \<noteq> Str s \<Longrightarrow> direction p = Prim (Str ''Not Provided'')"
  by (cases "get_prop p ''Direction''")
     (simp_all add: direction_def dirMap_def object_prototype_def or_else_def)

lemma direction_other_string:
  assumes "get_prop p ''Direction'' = Str s"
    and "s \<notin> fst ` set dirMap" and "s \<notin> fst ` set object_prototype"
  shows "direction p = Prim (Str ''Not Provided'')"
proof -
  have "map_of dirMap s = None" "map_of object_prototype s = None"
    using assms(2,3) by (simp_all add: map_of_eq_None_iff)
  then show ?thesis
    using assms(1) by (simp add: direction_def or_else_def)
qed

text \<open>
  C7. The severity mapping is as claimed (\<open>sev_levels\<close>, \<open>sev_other\<close>,
  \<open>sev_absent\<close>), and so is the direction mapping on the six codes, on an absent
  property, on a value that is not a string and on every string that names no property of
  \<^verbatim>\<open>Object.prototype\<close>. On such a name it is not: \<^verbatim>\<open>dirMap\<close> is an object literal, so
  \<^verbatim>\<open>dirMap["constructor"]\<close> is the inherited \<^verbatim>\<open>Object\<close> function, which is truthy, and
  the tooltip gets that function where the mapping should give "Not Provided".
\<close>

theorem direction_inherited_property:
  "direction [''Direction'' \<mapsto> Str ''constructor''] = Builtin ''Object''
   \<and> direction [''Direction'' \<mapsto> Str ''constructor''] \<noteq> Prim (Str ''Not Provided'')
   \<and> label [''Direction'' \<mapsto> Str ''constructor''] ! 13 = Subst (Builtin ''Object'')"
  by (simp add: label_def direction_def get_prop_def dirMap_def object_prototype_def or_else_def)

subsection \<open>Free-text fields\<close>

text \<open>
  C10. A free-text property that is present but falsy (the empty string, \<open>0\<close>, \<open>false\<close>,
  \<open>null\<close>) gives the same tooltip as the property being absent, and what is substituted
  for it is the placeholder of its field: "Unknown City" for City, "Unknown" for
  CountyName, "Not Provided" for IncidentType, Condition, Road, Reason and EndDateET.
\<close>

theorem falsy_field_placeholder:
  assumes "\<not> truthy_prim v"
  shows "(label (p(''IncidentType'' \<mapsto> v)) = label (p(''IncidentType'' := None))
        \<and> label (p(''IncidentType'' \<mapsto> v)) ! 1 = Subst (Prim (Str ''Not Provided'')))
       \<and> (label (p(''Condition'' \<mapsto> v)) = label (p(''Condition'' := None))
        \<and> label (p(''Condition'' \<mapsto> v)) ! 5 = Subst (Prim (Str ''Not Provided'')))
       \<and> (label (p(''City'' \<mapsto> v)) = label (p(''City'' := None))
        \<and> label (p(''City'' \<mapsto> v)) ! 7 = Subst (Prim (Str ''Unknown City'')))
       \<and> (label (p(''CountyName'' \<mapsto> v)) = label (p(''CountyName'' := None))
        \<and> label (p(''CountyName'' \<mapsto> v)) ! 9 = Subst (Prim (Str ''Unknown'')))
       \<and> (label (p(''Road'' \<mapsto> v)) = label (p(''Road'' := None))
        \<and> label (p(''Road'' \<mapsto> v)) ! 11 = Subst (Prim (Str ''Not Provided'')))
       \<and> (label (p(''Reason'' \<mapsto> v)) = label (p(''Reason'' := None))
        \<and> label (p(''Reason'' \<mapsto> v)) ! 15 = Subst (Prim (Str ''Not Provided'')))
       \<and> (label (p(''EndDateET'' \<mapsto> v)) = label (p(''EndDateET'' := None))
        \<and> label (p(''EndDateET'' \<mapsto> v)) ! 17 = Subst (Prim (Str ''Not Provided'')))"
  using assms
  by (intro conjI)
     (simp_all add: label_def field_or_def or_else_def get_prop_def sev_def direction_def)

theorem falsy_field_placeholder_witness:
  "\<not> truthy_prim (Str [])
   \<and> label [''Road'' \<mapsto> Str ''I-40'', ''City'' \<mapsto> Str []]
       = label ([''Road'' \<mapsto> Str ''I-40''](''City'' := None))
   \<and> label [''Road'' \<mapsto> Str ''I-40'', ''City'' \<mapsto> Str []] ! 7
       = Subst (Prim (Str ''Unknown City''))"
proof -
  have h: "\<not> truthy_prim (Str [])"
    by simp
  from falsy_field_placeholder [OF h, of "[''Road'' \<mapsto> Str ''I-40'']"] h
  show ?thesis
    by blast
qed

subsection \<open>County names\<close>

text \<open>
  C8. For a county feature that has a FIPS code, the tooltip is the name the table gives
  for the code followed by " County", and "Unknown County" when the table has no entry
  for the code.
\<close>

theorem fips_lookup:
  assumes "\<not> nullish (fips_of feature)"
  shows "(fipsToCounty env (to_number (string_to_number env) (fips_of feature)) = Some name
          \<longrightarrow> tooltip (countiesOnEachFeature env feature layer)
              = Some (Text (name @ '' County''), [(''sticky'', Bool True)]))
       \<and> (fipsToCounty env (to_number (string_to_number env) (fips_of feature)) = None
          \<longrightarrow> tooltip (countiesOnEachFeature env feature layer)
              = Some (Text ''Unknown County'', [(''sticky'', Bool True)]))"
  using assms
  by (simp add: countiesOnEachFeature_def county_name_def bindTooltip_def layer_on_def)

theorem fips_lookup_witness:
  "\<not> nullish (fips_of \<lparr>properties = Some [''FIPS'' \<mapsto> Str ''37183'']\<rparr>)
   \<and> tooltip (countiesOnEachFeature
        \<lparr>counties = [], fipsToCounty = [Finite 37183 \<mapsto> ''Wake''],
         string_to_number = (\<lambda>s. if s = ''37183'' then Finite 37183 else NaN),
         control_markup = (\<lambda>b. [])\<rparr>
        \<lparr>properties = Some [''FIPS'' \<mapsto> Str ''37183'']\<rparr> new_path)
     = Some (Text ''Wake County'', [(''sticky'', Bool True)])
   \<and> \<not> nullish (fips_of \<lparr>properties = Some [''FIPS'' \<mapsto> Num (Finite 99)]\<rparr>)
   \<and> tooltip (countiesOnEachFeature
        \<lparr>counties = [], fipsToCounty = [Finite 37183 \<mapsto> ''Wake''],
         string_to_number = (\<lambda>s. if s = ''37183'' then Finite 37183 else NaN),
         control_markup = (\<lambda>b. [])\<rparr>
        \<lparr>properties = Some [''FIPS'' \<mapsto> Num (Finite 99)]\<rparr> new_path)
     = Some (Text ''Unknown County'', [(''sticky'', Bool True)])"
  using
    fips_lookup [of "\<lparr>properties = Some [''FIPS'' \<mapsto> Str ''37183'']\<rparr>"
      "\<lparr>counties = [], fipsToCounty = [Finite 37183 \<mapsto> ''Wake''],
        string_to_number = (\<lambda>s. if s = ''37183'' then Finite 37183 else NaN),
         control_markup = (\<lambda>b. [])\<rparr>"
      "''Wake''" new_path]
    fips_lookup [of "\<lparr>properties = Some [''FIPS'' \<mapsto> Num (Finite 99)]\<rparr>"
      "\<lparr>counties = [], fipsToCounty = [Finite 37183 \<mapsto> ''Wake''],
        string_to_number = (\<lambda>s. if s = ''37183'' then Finite 37183 else NaN),
         control_markup = (\<lambda>b. [])\<rparr>"
      "''Wake''" new_path]
  by (simp add: fips_of_def get_prop_def)

lemma unknown_county: "x @ '' County'' = ''Unknown County'' \<longleftrightarrow> x = ''Unknown''"
proof -
  have "''Unknown County'' = ''Unknown'' @ '' County''"
    by simp
  then show ?thesis
    by (simp only: append_same_eq)
qed

text \<open>
  C9. A county feature whose FIPS property is \<open>null\<close> or \<open>undefined\<close> (or that has
  no properties at all) leaves its layer as it was: no tooltip is bound and no handler is
  attached. A feature with a FIPS value gets the tooltip and the two hover handlers; and
  a fresh layer ends up with the "Unknown County" tooltip only for a feature whose FIPS
  value is present and either has no entry in the table or is mapped to "Unknown" by it.
\<close>

theorem no_fips_no_tooltip:
  "(nullish (fips_of feature) \<longrightarrow> countiesOnEachFeature env feature layer = layer)
   \<and> (\<not> nullish (fips_of feature) \<longrightarrow>
        tooltip (countiesOnEachFeature env feature new_path) \<noteq> None
        \<and> map fst (handlers (countiesOnEachFeature env feature new_path))
            = [''mouseover'', ''mouseout''])
   \<and> (tooltip (countiesOnEachFeature env feature new_path)
        = Some (Text ''Unknown County'', [(''sticky'', Bool True)]) \<longrightarrow>
        \<not> nullish (fips_of feature)
        \<and> (fipsToCounty env (to_number (string_to_number env) (fips_of feature)) = None
           \<or> fipsToCounty env (to_number (string_to_number env) (fips_of feature))
               = Some ''Unknown''))"
proof (intro conjI impI)
  assume "nullish (fips_of feature)"
  then show "countiesOnEachFeature env feature layer = layer"
    by (simp add: countiesOnEachFeature_def)
next
  assume "\<not> nullish (fips_of feature)"
  then show "tooltip (countiesOnEachFeature env feature new_path) \<noteq> None"
    by (simp add: countiesOnEachFeature_def bindTooltip_def layer_on_def)
next
  assume "\<not> nullish (fips_of feature)"
  then show "map fst (handlers (countiesOnEachFeature env feature new_path))
      = [''mouseover'', ''mouseout'']"
    by (simp add: countiesOnEachFeature_def bindTooltip_def layer_on_def new_path_def)
next
  assume t: "tooltip (countiesOnEachFeature env feature new_path)
      = Some (Text ''Unknown County'', [(''sticky'', Bool True)])"
  then show present: "\<not> nullish (fips_of feature)"
    by (auto simp add: countiesOnEachFeature_def new_path_def)
  from t present have "county_name env (fips_of feature) @ '' County'' = ''Unknown County''"
    by (simp add: countiesOnEachFeature_def bindTooltip_def layer_on_def)
  then have "county_name env (fips_of feature) = ''Unknown''"
    by (simp add: unknown_county)
  then show "fipsToCounty env (to_number (string_to_number env) (fips_of feature)) = None
      \<or> fipsToCounty env (to_number (string_to_number env) (fips_of feature))
          = Some ''Unknown''"
    by (auto simp add: county_name_def split: option.splits)
qed

theorem no_fips_no_tooltip_witness:
  "nullish (fips_of \<lparr>properties = Some [''FIPS'' \<mapsto> Null]\<rparr>)
   \<and> countiesOnEachFeature
        \<lparr>counties = [], fipsToCounty = [Finite 37183 \<mapsto> ''Wake''],
         string_to_number = (\<lambda>s. NaN), control_markup = (\<lambda>b. [])\<rparr>
        \<lparr>properties = Some [''FIPS'' \<mapsto> Null]\<rparr> new_path = new_path
   \<and> nullish (fips_of \<lparr>properties = None\<rparr>)
   \<and> countiesOnEachFeature
        \<lparr>counties = [], fipsToCounty = [Finite 37183 \<mapsto> ''Wake''],
         string_to_number = (\<lambda>s. NaN), control_markup = (\<lambda>b. [])\<rparr>
        \<lparr>properties = None\<rparr> new_path = new_path"
  using
    no_fips_no_tooltip [of "\<lparr>properties = Some [''FIPS'' \<mapsto> Null]\<rparr>"
      "\<lparr>counties = [], fipsToCounty = [Finite 37183 \<mapsto> ''Wake''],
        string_to_number = (\<lambda>s. NaN), control_markup = (\<lambda>b. [])\<rparr>" new_path]
    no_fips_no_tooltip [of "\<lparr>properties = None\<rparr>"
      "\<lparr>counties = [], fipsToCounty = [Finite 37183 \<mapsto> ''Wake''],
        string_to_number = (\<lambda>s. NaN), control_markup = (\<lambda>b. [])\<rparr>" new_path]
  by (simp add: fips_of_def get_prop_def)

section \<open>What each operation changes\<close>

lemma addTo_alt:
  "addTo l s =
     s\<lparr>map_layers := (if l \<in> set (map_layers s) then map_layers s else map_layers s @ [l])\<rparr>"
  by (simp add: addTo_def)

lemma wz_alt:
  "wz p s =
     (next_ref s,
      s\<lparr>heap := (heap s)(next_ref s \<mapsto>
           FeatureLayer \<lparr>url = tims, where_clause = p, pane = ''workzones'',
             style = workzoneLinePolyStyle\<rparr>),
        next_ref := Suc (next_ref s)\<rparr>)"
  by (simp add: wz_def new_layer_def)

lemma startAutoRefresh_alt:
  "startAutoRefresh ms s =
     s\<lparr>intervals :=
          (case autoRefreshTimer s of
             None \<Rightarrow> intervals s
           | Some h \<Rightarrow> if h \<noteq> 0 then filter (\<lambda>(h', cb, ms). h' \<noteq> h) (intervals s)
                       else intervals s)
          @ (if ms > 0 then [(next_handle s, RefreshAllLayers, ms)] else []),
       next_handle := (if ms > 0 then Suc (next_handle s) else next_handle s),
       autoRefreshTimer := (if ms > 0 then Some (next_handle s) else autoRefreshTimer s)\<rparr>"
  by (simp add: startAutoRefresh_def clearInterval_def setInterval_def split: option.splits)

lemma addEventListener_alt:
  "addEventListener type cb s =
     s\<lparr>document_listeners :=
          (if (type, cb) \<in> set (document_listeners s) then document_listeners s
           else document_listeners s @ [(type, cb)])\<rparr>"
  by (simp add: addEventListener_def)

lemma destroy_alt:
  "destroy s =
     s\<lparr>intervals :=
          (case autoRefreshTimer s of
             None \<Rightarrow> intervals s
           | Some h \<Rightarrow> if h \<noteq> 0 then filter (\<lambda>(h', cb, ms). h' \<noteq> h) (intervals s)
                       else intervals s),
       document_listeners :=
          filter (\<lambda>l. l \<noteq> (''visibilitychange'', OnVisibilityRefresh)) (document_listeners s),
       map_layers := [], map_panes := [], map_removed := True\<rparr>"
  by (simp add: destroy_def clearInterval_def removeEventListener_def map_remove_def
        split: option.splits)

lemma init_county_overlay_alt:
  "init_county_overlay env s =
     s\<lparr>countiesLayer := Some (next_ref s),
       heap := (heap s)(next_ref s \<mapsto>
         GeoJSONLayer ''counties''
           [(''fill'', Bool True), (''fillOpacity'', Num (Finite 0)), (''fillColor'', Str ''#000''),
            (''weight'', Num (Finite 1)), (''color'', Str ''gray''), (''dashArray'', Str ''3'')]
           (geoJSON (counties env) (countiesOnEachFeature env))),
       next_ref := Suc (next_ref s),
       map_layers := (if next_ref s \<in> set (map_layers s) then map_layers s
                      else map_layers s @ [next_ref s])\<rparr>"
  by (simp add: init_county_overlay_def statements_def assign_def new_layer_def addTo_alt)

lemma init_work_zones_alt:
  "init_work_zones s =
     s\<lparr>truckClosureLayer := Some (next_ref s),
       constructionLayer := Some (next_ref s + 1),
       nightConstructionLayer := Some (next_ref s + 2),
       maintenanceLayer := Some (next_ref s + 3),
       nightMaintenanceLayer := Some (next_ref s + 4),
       emergencyLayer := Some (next_ref s + 5),
       obstructionLayer := Some (next_ref s + 6),
       weatherLayer := Some (next_ref s + 7),
       specialLayer := Some (next_ref s + 8),
       otherLayer := Some (next_ref s + 9),
       heap := (heap s)
         (next_ref s \<mapsto> FeatureLayer \<lparr>url = tims,
            where_clause = ''IncidentType = 'Truck Closure'' @ [CHR 0x27],
            pane = ''workzones'', style = workzoneLinePolyStyle\<rparr>,
          next_ref s + 1 \<mapsto> FeatureLayer \<lparr>url = tims,
            where_clause = ''IncidentType = 'Construction'' @ [CHR 0x27],
            pane = ''workzones'', style = workzoneLinePolyStyle\<rparr>,
          next_ref s + 2 \<mapsto> FeatureLayer \<lparr>url = tims,
            where_clause = ''IncidentType = 'Night Time Construction'' @ [CHR 0x27],
            pane = ''workzones'', style = workzoneLinePolyStyle\<rparr>,
          next_ref s + 3 \<mapsto> FeatureLayer \<lparr>url = tims,
            where_clause = ''IncidentType = 'Maintenance'' @ [CHR 0x27],
            pane = ''workzones'', style = workzoneLinePolyStyle\<rparr>,
          next_ref s + 4 \<mapsto> FeatureLayer \<lparr>url = tims,
            where_clause = ''IncidentType = 'Night Time Maintenance'' @ [CHR 0x27],
            pane = ''workzones'', style = workzoneLinePolyStyle\<rparr>,
          next_ref s + 5 \<mapsto> FeatureLayer \<lparr>url = tims,
            where_clause = ''IncidentType = 'Emergency Road Work'' @ [CHR 0x27],
            pane = ''workzones'', style = workzoneLinePolyStyle\<rparr>,
          next_ref s + 6 \<mapsto> FeatureLayer \<lparr>url = tims,
            where_clause = ''IncidentType = 'Road Obstruction'' @ [CHR 0x27],
            pane = ''workzones'', style = workzoneLinePolyStyle\<rparr>,
          next_ref s + 7 \<mapsto> FeatureLayer \<lparr>url = tims,
            where_clause = ''IncidentType = 'Weather Event'' @ [CHR 0x27],
            pane = ''workzones'', style = workzoneLinePolyStyle\<rparr>,
          next_ref s + 8 \<mapsto> FeatureLayer \<lparr>url = tims,
            where_clause = ''IncidentType = 'Special Event'' @ [CHR 0x27],
            pane = ''workzones'', style = workzoneLinePolyStyle\<rparr>,
          next_ref s + 9 \<mapsto> FeatureLayer \<lparr>url = tims,
            where_clause = ''IncidentType = 'Other'' @ [CHR 0x27],
            pane = ''workzones'', style = workzoneLinePolyStyle\<rparr>),
       next_ref := next_ref s + 10,
       map_layers := (if next_ref s + 1 \<in> set (map_layers s) then map_layers s
                      else map_layers s @ [next_ref s + 1])\<rparr>"
  by (simp add: init_work_zones_def statements_def assign_def wz_alt addTo_alt eval_nat_numeral)

lemma init_layer_control_alt:
  "init_layer_control env s =
     s\<lparr>layerControl :=
          Some \<lparr>baseLayers = [(''Dark Basemap'', darkMap s), (''Light Basemap'', lightMap s)],
                groupedOverlays =
                  [(''Boundaries'', [(''Counties'', countiesLayer s)]),
                   (''Work Zones'',
                    [(''Truck Closure'', truckClosureLayer s),
                     (''Construction'', constructionLayer s),
                     (''Night Construction'', nightConstructionLayer s),
                     (''Maintenance'', maintenanceLayer s),
                     (''Night Time Maintenance'', nightMaintenanceLayer s),
                     (''Emergency Road Work'', emergencyLayer s),
                     (''Road Obstruction'', obstructionLayer s),
                     (''Weather Event'', weatherLayer s),
                     (''Special Event'', specialLayer s),
                     (''Other'', otherLayer s)])],
                collapsed = False, exclusiveGroups = [''Boundaries''], groupCheckboxes = False,
                container = Some (next_node s)\<rparr>,
       dom := (case map_container s of
                 None \<Rightarrow> dom s
               | Some m \<Rightarrow>
                   append_child_in m
                     (Element (next_node s)
                        ((createElement ''div'')\<lparr>classList := [''leaflet-control-layers'']\<rparr>)
                        (control_markup env (Suc (next_node s))))
                     (dom s)),
       next_node := Suc (next_node s) + length (ids (control_markup env (Suc (next_node s)))),
       map_listeners := map_listeners s @
         [(''overlayadd'', OnLayerChange), (''overlayremove'', OnLayerChange),
          (''baselayerchange'', OnLayerChange)]\<rparr>"
  by (simp add: init_layer_control_def map_on_def Let_def)

lemma init_auto_refresh_alt:
  "init_auto_refresh s =
     s\<lparr>intervals :=
          (case autoRefreshTimer s of
             None \<Rightarrow> intervals s
           | Some h \<Rightarrow> if h \<noteq> 0 then filter (\<lambda>(h', cb, ms). h' \<noteq> h) (intervals s)
                       else intervals s)
          @ [(next_handle s, RefreshAllLayers, 21600000)],
       next_handle := Suc (next_handle s),
       autoRefreshTimer := Some (next_handle s),
       document_listeners :=
          (if (''visibilitychange'', OnVisibilityRefresh) \<in> set (document_listeners s)
           then document_listeners s
           else document_listeners s @ [(''visibilitychange'', OnVisibilityRefresh)])\<rparr>"
  by (simp add: init_auto_refresh_def startAutoRefresh_alt addEventListener_alt)

lemma initLayersAndUI_stages:
  "initLayersAndUI env s =
     init_auto_refresh (init_layer_control env (init_work_zones (init_county_overlay env s)))"
  by (simp add: initLayersAndUI_def statements_def)

lemma wire_frame: "\<exists>d n. fst (wire a b c s) = s\<lparr>dom := d, next_node := n\<rparr>"
proof -
  have "fst (wire a b c s) =
      s\<lparr>dom := dom (fst (wire a b c s)), next_node := next_node (fst (wire a b c s))\<rparr>"
    by (simp add: wire_def Let_def)
  then show ?thesis
    by blast
qed

lemma makeGroupedLayerCollapsible_frame:
  "\<exists>d n. fst (makeGroupedLayerCollapsible c g s) = s\<lparr>dom := d, next_node := n\<rparr>"
proof -
  have same: "\<exists>d n. s = s\<lparr>dom := d, next_node := n\<rparr>"
    by (rule exI [of _ "dom s"], rule exI [of _ "next_node s"]) simp
  have wired: "\<exists>d n. fst (wire a b r (s\<lparr>dom := d0\<rparr>)) = s\<lparr>dom := d, next_node := n\<rparr>"
    for a b r d0
    using wire_frame [of a b r "s\<lparr>dom := d0\<rparr>"] by simp
  show ?thesis
    unfolding makeGroupedLayerCollapsible_def
    using same wired by (simp split: option.splits prod.splits)
qed

lemma make_collapsibles_frame: "\<exists>d n. make_collapsibles s = s\<lparr>dom := d, next_node := n\<rparr>"
proof (cases "layerControl s")
  case None
  have "s = s\<lparr>dom := dom s, next_node := next_node s\<rparr>"
    by simp
  with None show ?thesis
    unfolding make_collapsibles_def by (simp only: option.case) blast
next
  case (Some c)
  obtain d1 n1 where first: "fst (makeGroupedLayerCollapsible c ''Boundaries'' s)
      = s\<lparr>dom := d1, next_node := n1\<rparr>"
    using makeGroupedLayerCollapsible_frame by blast
  obtain d2 n2 where second:
    "fst (makeGroupedLayerCollapsible c ''Work Zones'' (s\<lparr>dom := d1, next_node := n1\<rparr>))
      = s\<lparr>dom := d2, next_node := n2\<rparr>"
    using makeGroupedLayerCollapsible_frame [of c "''Work Zones''" "s\<lparr>dom := d1, next_node := n1\<rparr>"]
    by auto
  obtain s1 r where pair: "makeGroupedLayerCollapsible c ''Boundaries'' s = (s1, r)"
    by (cases "makeGroupedLayerCollapsible c ''Boundaries'' s")
  with first have s1: "s1 = s\<lparr>dom := d1, next_node := n1\<rparr>"
    by simp
  show ?thesis
  proof (cases r)
    case None
    with Some pair s1 second have "make_collapsibles s = s\<lparr>dom := d2, next_node := n2\<rparr>"
      by (simp add: make_collapsibles_def)
    then show ?thesis
      by blast
  next
    case (Some err)
    with \<open>layerControl s = Some c\<close> pair s1
    have "make_collapsibles s = s\<lparr>dom := d1, next_node := n1\<rparr>"
      by (simp add: make_collapsibles_def)
    then show ?thesis
      by blast
  qed
qed

lemma refresh_alt:
  "refresh l s =
     s\<lparr>refreshed := refreshed s @
          (case l of
             None \<Rightarrow> []
           | Some r \<Rightarrow>
               (case heap s r of
                  Some (FeatureLayer opts) \<Rightarrow> [r]
                | _ \<Rightarrow> []))\<rparr>"
  by (simp add: refresh_def split: option.splits layer.splits)

lemma fold_refresh:
  "fold refresh ls s =
     s\<lparr>refreshed := refreshed s @
          concat (map (\<lambda>l. case l of
                              None \<Rightarrow> []
                            | Some r \<Rightarrow>
                                (case heap s r of
                                   Some (FeatureLayer opts) \<Rightarrow> [r]
                                 | _ \<Rightarrow> [])) ls)\<rparr>"
proof (induction ls arbitrary: s)
  case Nil
  then show ?case
    by simp
next
  case (Cons l ls)
  have "fold refresh (l # ls) s = fold refresh ls (refresh l s)"
    by simp
  also have "\<dots> = fold refresh ls
      (s\<lparr>refreshed := refreshed s @
          (case l of
             None \<Rightarrow> []
           | Some r \<Rightarrow>
               (case heap s r of
                  Some (FeatureLayer opts) \<Rightarrow> [r]
                | _ \<Rightarrow> []))\<rparr>)"
    by (simp only: refresh_alt)
  finally show ?case
    by (simp add: Cons.IH)
qed

lemma refreshAllLayers_alt:
  "refreshAllLayers s = s\<lparr>refreshed := refreshed s @ incident_layers s\<rparr>"
  unfolding refreshAllLayers_def incident_layers_def Let_def
  by (rule fold_refresh)

section \<open>The life cycle\<close>

subsection \<open>Ordinary steps\<close>

lemma ordinary_refl: "ordinary s s"
  unfolding ordinary_def
  by (rule exI [of _ "dom s"], rule exI [of _ "next_node s"], rule exI [of _ "[]"],
      rule exI [of _ "refreshed s"], rule exI [of _ "map_size_checks s"]) simp

lemma ordinary_trans:
  assumes "ordinary s t" and "ordinary t u"
  shows "ordinary s u"
proof -
  from assms(1) obtain d n q rf sz where
    t: "t = s\<lparr>dom := d, next_node := n, frame_requests := frame_requests s @ q,
          frame_queue := frame_queue s @ q, refreshed := rf, map_size_checks := sz\<rparr>"
    and q: "InitLayersAndUI \<notin> set q"
    unfolding ordinary_def by blast
  from assms(2) obtain d' n' q' rf' sz' where
    u: "u = t\<lparr>dom := d', next_node := n', frame_requests := frame_requests t @ q',
          frame_queue := frame_queue t @ q', refreshed := rf', map_size_checks := sz'\<rparr>"
    and q': "InitLayersAndUI \<notin> set q'"
    unfolding ordinary_def by blast
  have "u = s\<lparr>dom := d', next_node := n', frame_requests := frame_requests s @ (q @ q'),
        frame_queue := frame_queue s @ (q @ q'), refreshed := rf', map_size_checks := sz'\<rparr>"
    by (simp add: u t)
  moreover have "InitLayersAndUI \<notin> set (q @ q')"
    using q q' by simp
  ultimately show ?thesis
    unfolding ordinary_def by blast
qed

lemma ordinary_dom: "ordinary s (s\<lparr>dom := d\<rparr>)"
  unfolding ordinary_def
  by (rule exI [of _ d], rule exI [of _ "next_node s"], rule exI [of _ "[]"],
      rule exI [of _ "refreshed s"], rule exI [of _ "map_size_checks s"]) simp

lemma ordinary_dom_next_node: "ordinary s (s\<lparr>dom := d, next_node := n\<rparr>)"
  unfolding ordinary_def
  by (rule exI [of _ d], rule exI [of _ n], rule exI [of _ "[]"],
      rule exI [of _ "refreshed s"], rule exI [of _ "map_size_checks s"]) simp

lemma ordinary_refreshed: "ordinary s (s\<lparr>refreshed := rf\<rparr>)"
  unfolding ordinary_def
  by (rule exI [of _ "dom s"], rule exI [of _ "next_node s"], rule exI [of _ "[]"],
      rule exI [of _ rf], rule exI [of _ "map_size_checks s"]) simp

lemma ordinary_size_check: "ordinary s (s\<lparr>map_size_checks := sz\<rparr>)"
  unfolding ordinary_def
  by (rule exI [of _ "dom s"], rule exI [of _ "next_node s"], rule exI [of _ "[]"],
      rule exI [of _ "refreshed s"], rule exI [of _ sz]) simp

lemma ordinary_request:
  "cb \<noteq> InitLayersAndUI \<Longrightarrow> ordinary s (requestAnimationFrame cb s)"
  unfolding ordinary_def requestAnimationFrame_def
  by (rule exI [of _ "dom s"], rule exI [of _ "next_node s"], rule exI [of _ "[cb]"],
      rule exI [of _ "refreshed s"], rule exI [of _ "map_size_checks s"]) simp

text \<open>Every callback but the initialisation is an ordinary step.\<close>

lemma run_callback_ordinary:
  assumes "cb \<noteq> InitLayersAndUI"
  shows "ordinary s (run_callback env cb s)"
proof (cases cb)
  case InitLayersAndUI
  with assms show ?thesis
    by simp
next
  case InvalidateSize
  then show ?thesis
    by (simp add: ordinary_size_check)
next
  case OnLayerChange
  then show ?thesis
    by (simp add: ordinary_request)
next
  case RefreshLayerControlCollapsibles
  then show ?thesis
    by (cases "layerControl s")
       (simp_all add: refreshLayerControlCollapsibles_def ordinary_refl ordinary_request)
next
  case MakeCollapsibles
  obtain d n where "make_collapsibles s = s\<lparr>dom := d, next_node := n\<rparr>"
    using make_collapsibles_frame by blast
  with MakeCollapsibles show ?thesis
    by (simp add: ordinary_dom_next_node)
next
  case RefreshAllLayers
  then show ?thesis
    by (simp add: refreshAllLayers_alt ordinary_refreshed)
next
  case OnVisibilityRefresh
  then show ?thesis
    by (simp add: onVisibilityRefresh_def refreshAllLayers_alt ordinary_refreshed ordinary_refl)
qed

lemma fold_run_callback_ordinary:
  assumes "InitLayersAndUI \<notin> set cbs"
  shows "ordinary s (fold (run_callback env) cbs s)"
  using assms
proof (induction cbs arbitrary: s)
  case Nil
  then show ?case
    by (simp add: ordinary_refl)
next
  case (Cons cb cbs)
  from Cons.prems have "cb \<noteq> InitLayersAndUI"
    by auto
  then have "ordinary s (run_callback env cb s)"
    by (rule run_callback_ordinary)
  moreover from Cons.prems have
    "ordinary (run_callback env cb s) (fold (run_callback env) cbs (run_callback env cb s))"
    by (simp add: Cons.IH)
  ultimately show ?case
    by (simp add: ordinary_trans)
qed

text \<open>The fields that \<open>initialised\<close> reads.\<close>

lemma initialised_fields:
  assumes "inited t = inited s" "darkMap t = darkMap s" "lightMap t = lightMap s"
    "countiesLayer t = countiesLayer s"
    "truckClosureLayer t = truckClosureLayer s" "constructionLayer t = constructionLayer s"
    "nightConstructionLayer t = nightConstructionLayer s"
    "maintenanceLayer t = maintenanceLayer s"
    "nightMaintenanceLayer t = nightMaintenanceLayer s"
    "emergencyLayer t = emergencyLayer s" "obstructionLayer t = obstructionLayer s"
    "weatherLayer t = weatherLayer s" "specialLayer t = specialLayer s"
    "otherLayer t = otherLayer s" "heap t = heap s" "map_layers t = map_layers s"
    "layerControl t = layerControl s" "autoRefreshTimer t = autoRefreshTimer s"
    "next_handle t = next_handle s" "intervals t = intervals s"
    "document_listeners t = document_listeners s" "map_listeners t = map_listeners s"
  shows "initialised t = initialised s"
  unfolding initialised_def incident_layers_def basemaps_def work_zones_def
  by (simp only: assms)

lemma incident_layers_fields:
  assumes "truckClosureLayer t = truckClosureLayer s" "constructionLayer t = constructionLayer s"
    "nightConstructionLayer t = nightConstructionLayer s"
    "maintenanceLayer t = maintenanceLayer s"
    "nightMaintenanceLayer t = nightMaintenanceLayer s"
    "emergencyLayer t = emergencyLayer s" "obstructionLayer t = obstructionLayer s"
    "weatherLayer t = weatherLayer s" "specialLayer t = specialLayer s"
    "otherLayer t = otherLayer s" "heap t = heap s"
  shows "incident_layers t = incident_layers s"
  unfolding incident_layers_def
  by (simp only: assms)

text \<open>What an ordinary step keeps.\<close>

lemma ordinary_keeps:
  assumes "ordinary s t"
  shows "inited t = inited s"
    and "fresh t = fresh s"
    and "initialised t = initialised s"
    and "count_list (frame_requests t) InitLayersAndUI = count_list (frame_requests s) InitLayersAndUI"
    and "InitLayersAndUI \<in> set (frame_queue t) \<longleftrightarrow> InitLayersAndUI \<in> set (frame_queue s)"
    and "intervals t = intervals s"
    and "document_listeners t = document_listeners s"
    and "map_listeners t = map_listeners s"
    and "visibilityState t = visibilityState s"
proof -
  from assms obtain d n q rf sz where
    t: "t = s\<lparr>dom := d, next_node := n, frame_requests := frame_requests s @ q,
          frame_queue := frame_queue s @ q, refreshed := rf, map_size_checks := sz\<rparr>"
    and q: "InitLayersAndUI \<notin> set q"
    unfolding ordinary_def by blast
  show "inited t = inited s"
    by (simp add: t)
  show "fresh t = fresh s"
    by (simp add: t fresh_def constructed_def)
  show "count_list (frame_requests t) InitLayersAndUI
      = count_list (frame_requests s) InitLayersAndUI"
    using q by (simp add: t count_list_0_iff)
  show "InitLayersAndUI \<in> set (frame_queue t) \<longleftrightarrow> InitLayersAndUI \<in> set (frame_queue s)"
    using q by (simp add: t)
  show "intervals t = intervals s"
    by (simp add: t)
  show "document_listeners t = document_listeners s"
    by (simp add: t)
  show "map_listeners t = map_listeners s"
    by (simp add: t)
  show "visibilityState t = visibilityState s"
    by (simp add: t)
  show "initialised t = initialised s"
    by (rule initialised_fields) (simp_all add: t)
qed

subsection \<open>The invariant\<close>

lemma console_log_frame: "\<exists>c. console_log args s = s\<lparr>console := c\<rparr>"
  by (rule exI [of _ "console s @ [args]"]) (simp add: console_log_def)

lemma log_category_frame: "\<exists>c. log_category cat s = s\<lparr>console := c\<rparr>"
  by (rule exI [of _ "console (log_category cat s)"])
     (simp add: log_category_def console_log_def)

lemma log_measure_frame: "\<exists>c. log_measure val s = s\<lparr>console := c\<rparr>"
  by (rule exI [of _ "console (log_measure val s)"])
     (simp add: log_measure_def console_log_def)

lemma fold_log_category_frame: "\<exists>c. fold log_category cats (s\<lparr>console := c0\<rparr>) = s\<lparr>console := c\<rparr>"
proof (induction cats arbitrary: c0)
  case Nil
  then show ?case
    by auto
next
  case (Cons cat cats)
  obtain c1 where "log_category cat (s\<lparr>console := c0\<rparr>) = s\<lparr>console := c1\<rparr>"
    using log_category_frame [of cat "s\<lparr>console := c0\<rparr>"] by auto
  then show ?case
    using Cons.IH [where ?c0.0 = c1] by simp
qed

lemma fold_log_measure_frame: "\<exists>c. fold log_measure vals (s\<lparr>console := c0\<rparr>) = s\<lparr>console := c\<rparr>"
proof (induction vals arbitrary: c0)
  case Nil
  then show ?case
    by auto
next
  case (Cons val vals)
  obtain c1 where "log_measure val (s\<lparr>console := c0\<rparr>) = s\<lparr>console := c1\<rparr>"
    using log_measure_frame [of val "s\<lparr>console := c0\<rparr>"] by auto
  then show ?case
    using Cons.IH [where ?c0.0 = c1] by simp
qed

lemma log_data_frame: "\<exists>c. log_data options s = s\<lparr>console := c\<rparr>"
proof -
  have same: "\<exists>c. t\<lparr>console := c0\<rparr> = t\<lparr>console := c\<rparr>" for t :: visual and c0
    by blast
  have start: "s = s\<lparr>console := console s\<rparr>"
    by simp
  have cats_case: "\<exists>c. (case cs of None \<Rightarrow> s | Some cats \<Rightarrow> fold log_category cats s)
      = s\<lparr>console := c\<rparr>" for cs
  proof (cases cs)
    case None
    with start show ?thesis
      by (simp only: option.case) blast
  next
    case (Some cats)
    from fold_log_category_frame [where cats = cats and s = s and ?c0.0 = "console s"] Some
    show ?thesis
      by simp
  qed
  have vals_case: "\<exists>c. (case ms of None \<Rightarrow> s\<lparr>console := c0\<rparr>
      | Some vals \<Rightarrow> fold log_measure vals (s\<lparr>console := c0\<rparr>)) = s\<lparr>console := c\<rparr>" for ms c0
  proof (cases ms)
    case None
    then show ?thesis
      by (simp only: option.case) blast
  next
    case (Some vals)
    from fold_log_measure_frame [where vals = vals and s = s and ?c0.0 = c0] Some
    show ?thesis
      by simp
  qed
  have both: "\<exists>c. (let s1 = (case cs of None \<Rightarrow> s | Some cats \<Rightarrow> fold log_category cats s)
      in case ms of None \<Rightarrow> s1 | Some vals \<Rightarrow> fold log_measure vals s1) = s\<lparr>console := c\<rparr>"
    for cs ms
  proof -
    from cats_case [where cs = cs] obtain c0 where
      "(case cs of None \<Rightarrow> s | Some cats \<Rightarrow> fold log_category cats s) = s\<lparr>console := c0\<rparr>"
      by blast
    with vals_case [where ms = ms and ?c0.0 = c0] show ?thesis
      by (simp add: Let_def)
  qed
  show ?thesis
    unfolding log_data_def Let_def
    using console_log_frame [of "[LogText ''No data'']" s] both [unfolded Let_def]
    by (simp split: option.splits list.splits)
qed

lemma update_frame:
  "\<exists>c. update options s =
     s\<lparr>inited := True,
       frame_requests := frame_requests s @ (if inited s then [] else [InitLayersAndUI])
         @ [InvalidateSize],
       frame_queue := frame_queue s @ (if inited s then [] else [InitLayersAndUI])
         @ [InvalidateSize],
       console := c\<rparr>"
proof -
  define t where "t = requestAnimationFrame InvalidateSize
    (if \<not> inited s then requestAnimationFrame InitLayersAndUI (s\<lparr>inited := True\<rparr>) else s)"
  have t: "t = s\<lparr>inited := True,
       frame_requests := frame_requests s @ (if inited s then [] else [InitLayersAndUI])
         @ [InvalidateSize],
       frame_queue := frame_queue s @ (if inited s then [] else [InitLayersAndUI])
         @ [InvalidateSize]\<rparr>"
    by (simp add: t_def requestAnimationFrame_def)
  have "update options s = log_data options t"
    by (simp add: update_def t_def)
  moreover obtain c where "log_data options t = t\<lparr>console := c\<rparr>"
    using log_data_frame by blast
  ultimately have "update options s = t\<lparr>console := c\<rparr>"
    by simp
  then show ?thesis
    unfolding t by blast
qed

text \<open>The constructor leaves a fresh widget, or throws.\<close>

lemma constructor_fresh:
  assumes "constructor options document = Inr s0"
  shows "fresh s0" and "\<not> inited s0" and "frame_queue s0 = []" and "frame_requests s0 = []"
  using assms
  by (auto simp add: constructor_def createMapContainer_def initMap_def page_def new_layer_def
        addTo_def fresh_def constructed_def Let_def
        split: option.splits sum.splits)

lemma constructor_inv:
  assumes "constructor options document = Inr s0"
  shows "lifecycle_inv s0"
  using constructor_fresh [OF assms] by (simp add: lifecycle_inv_def)

text \<open>The initialisation takes a fresh widget to an initialised one.\<close>

lemma initLayersAndUI_fresh:
  assumes "fresh s" and "inited s"
  shows "initialised (initLayersAndUI env s)"
    and "frame_queue (initLayersAndUI env s) = frame_queue s"
    and "frame_requests (initLayersAndUI env s) = frame_requests s"
proof -
  from assms(1) have s:
    "countiesLayer s = None" "truckClosureLayer s = None" "constructionLayer s = None"
    "nightConstructionLayer s = None" "maintenanceLayer s = None"
    "nightMaintenanceLayer s = None" "emergencyLayer s = None" "obstructionLayer s = None"
    "weatherLayer s = None" "specialLayer s = None" "otherLayer s = None"
    "layerControl s = None" "autoRefreshTimer s = None" "intervals s = []"
    "map_layers s = [0]" "darkMap s = Some 0" "lightMap s = Some 1" "next_ref s = 2"
    "next_handle s = 1" "map_listeners s = []" "document_listeners s = []"
    by (simp_all add: fresh_def constructed_def)
  note stages = initLayersAndUI_stages init_auto_refresh_alt init_layer_control_alt
    init_work_zones_alt init_county_overlay_alt
  show "frame_queue (initLayersAndUI env s) = frame_queue s"
    by (simp add: stages)
  show "frame_requests (initLayersAndUI env s) = frame_requests s"
    by (simp add: stages)
  show "initialised (initLayersAndUI env s)"
    unfolding initialised_def incident_layers_def basemaps_def work_zones_def
    using assms(2) by (simp add: stages s)
qed

text \<open>An ordinary step of an initialised widget keeps the invariant.\<close>

lemma ordinary_inv:
  assumes "lifecycle_inv s" and "\<not> pending s" and "ordinary s t"
  shows "lifecycle_inv t" and "\<not> pending t" and "inited t"
proof -
  note keeps = ordinary_keeps [OF assms(3)]
  from assms(2) have s: "inited s" "InitLayersAndUI \<notin> set (frame_queue s)"
    by (simp_all add: pending_def)
  with assms(1) have "initialised s" "count_list (frame_requests s) InitLayersAndUI = 1"
    by (simp_all add: lifecycle_inv_def)
  with s keeps show "lifecycle_inv t" "\<not> pending t" "inited t"
    by (simp_all add: lifecycle_inv_def pending_def)
qed

text \<open>While the initialisation is pending nothing is registered, so nothing can fire.\<close>

lemma pending_fresh:
  assumes "lifecycle_inv s" and "pending s"
  shows "fresh s"
  using assms by (auto simp add: lifecycle_inv_def pending_def split: if_splits)

lemma fresh_nothing_registered:
  assumes "fresh s"
  shows "intervals s = []" and "document_listeners s = []" and "map_listeners s = []"
    and "incident_layers s = []" and "constructed s"
  using assms by (simp_all add: fresh_def constructed_def incident_layers_def)

lemma initialised_registered:
  assumes "lifecycle_inv s" and "\<not> pending s"
  shows "initialised s"
    and "intervals s = [(1, RefreshAllLayers, 21600000)]"
    and "document_listeners s = [(''visibilitychange'', OnVisibilityRefresh)]"
    and "map_listeners s =
          [(''overlayadd'', OnLayerChange), (''overlayremove'', OnLayerChange),
           (''baselayerchange'', OnLayerChange)]"
proof -
  from assms show "initialised s"
    by (auto simp add: lifecycle_inv_def pending_def split: if_splits)
  then show "intervals s = [(1, RefreshAllLayers, 21600000)]"
    and "document_listeners s = [(''visibilitychange'', OnVisibilityRefresh)]"
    and "map_listeners s =
          [(''overlayadd'', OnLayerChange), (''overlayremove'', OnLayerChange),
           (''baselayerchange'', OnLayerChange)]"
    by (simp_all add: initialised_def)
qed

lemma inv_visibilityState:
  "lifecycle_inv (s\<lparr>visibilityState := v\<rparr>) = lifecycle_inv s"
  "pending (s\<lparr>visibilityState := v\<rparr>) = pending s"
proof -
  have "initialised (s\<lparr>visibilityState := v\<rparr>) = initialised s"
    by (rule initialised_fields) simp_all
  moreover have "fresh (s\<lparr>visibilityState := v\<rparr>) = fresh s"
    by (simp add: fresh_def constructed_def)
  ultimately show "lifecycle_inv (s\<lparr>visibilityState := v\<rparr>) = lifecycle_inv s"
    by (simp add: lifecycle_inv_def)
  show "pending (s\<lparr>visibilityState := v\<rparr>) = pending s"
    by (simp add: pending_def)
qed

text \<open>Every event keeps the invariant, and only an update sets the flag.\<close>

lemma step_update:
  assumes "lifecycle_inv s"
  shows "lifecycle_inv (step env (Update options) s)" and "inited (step env (Update options) s)"
proof -
  obtain c where t: "update options s =
     s\<lparr>inited := True,
       frame_requests := frame_requests s @ (if inited s then [] else [InitLayersAndUI])
         @ [InvalidateSize],
       frame_queue := frame_queue s @ (if inited s then [] else [InitLayersAndUI])
         @ [InvalidateSize],
       console := c\<rparr>"
    using update_frame by blast
  have fresh: "fresh (update options s) = fresh s"
    by (simp add: t fresh_def constructed_def)
  show "inited (step env (Update options) s)"
    by (simp add: t)
  consider "\<not> inited s" | "inited s" "InitLayersAndUI \<in> set (frame_queue s)"
    | "inited s" "InitLayersAndUI \<notin> set (frame_queue s)"
    by blast
  then show "lifecycle_inv (step env (Update options) s)"
  proof cases
    case 1
    with assms have "frame_queue s = []" "fresh s"
      "count_list (frame_requests s) InitLayersAndUI = 0"
      by (simp_all add: lifecycle_inv_def)
    moreover have "\<exists>k. [InitLayersAndUI, InvalidateSize] = InitLayersAndUI # replicate k InvalidateSize"
      by (rule exI [of _ 1]) simp
    ultimately show ?thesis
      using 1 fresh by (simp add: lifecycle_inv_def t)
  next
    case 2
    with assms obtain k where k: "frame_queue s = InitLayersAndUI # replicate k InvalidateSize"
      and "fresh s" and "count_list (frame_requests s) InitLayersAndUI = 1"
      by (auto simp add: lifecycle_inv_def)
    moreover have "\<exists>k'. replicate k InvalidateSize @ [InvalidateSize] = replicate k' InvalidateSize"
      by (rule exI [of _ "Suc k"]) (simp add: replicate_append_same)
    ultimately show ?thesis
      using 2 fresh by (simp add: lifecycle_inv_def t)
  next
    case 3
    with assms have "initialised s" "count_list (frame_requests s) InitLayersAndUI = 1"
      by (simp_all add: lifecycle_inv_def)
    moreover have "initialised (update options s) = initialised s"
      using 3 by (intro initialised_fields) (simp_all add: t)
    ultimately show ?thesis
      using 3 by (simp add: lifecycle_inv_def t)
  qed
qed

lemma step_frame:
  assumes "lifecycle_inv s"
  shows "lifecycle_inv (step env AnimationFrame s)"
    and "inited (step env AnimationFrame s) = inited s"
    and "\<not> pending s \<Longrightarrow> \<not> pending (step env AnimationFrame s)"
    and "inited s \<Longrightarrow> \<not> pending (step env AnimationFrame s)"
proof -
  consider "\<not> inited s" | "inited s" "InitLayersAndUI \<in> set (frame_queue s)"
    | "inited s" "InitLayersAndUI \<notin> set (frame_queue s)"
    by blast
  then have "lifecycle_inv (step env AnimationFrame s)
      \<and> inited (step env AnimationFrame s) = inited s
      \<and> (inited s \<longrightarrow> \<not> pending (step env AnimationFrame s))"
  proof cases
    case 1
    with assms have "frame_queue s = []"
      by (simp add: lifecycle_inv_def)
    then have "step env AnimationFrame s = s"
      by simp
    with assms 1 show ?thesis
      by simp
  next
    case 2
    with assms obtain k where k: "frame_queue s = InitLayersAndUI # replicate k InvalidateSize"
      and f: "fresh s" and c: "count_list (frame_requests s) InitLayersAndUI = 1"
      by (auto simp add: lifecycle_inv_def)
    define s' where "s' = s\<lparr>frame_queue := []\<rparr>"
    define u where "u = initLayersAndUI env s'"
    have "fresh s'" "inited s'"
      using f 2 by (simp_all add: s'_def fresh_def constructed_def)
    then have u: "initialised u" "frame_queue u = []" "frame_requests u = frame_requests s"
      using initLayersAndUI_fresh [of s' env] by (simp_all add: u_def s'_def)
    then have inv_u: "lifecycle_inv u" "\<not> pending u"
      using c by (simp_all add: lifecycle_inv_def pending_def initialised_def)
    have final: "step env AnimationFrame s = fold (run_callback env) (replicate k InvalidateSize) u"
      by (simp add: k u_def s'_def)
    have "ordinary u (fold (run_callback env) (replicate k InvalidateSize) u)"
      by (rule fold_run_callback_ordinary) simp
    from ordinary_inv [OF inv_u this] show ?thesis
      using 2 unfolding final by simp
  next
    case 3
    define s' where "s' = s\<lparr>frame_queue := []\<rparr>"
    from assms 3 have "initialised s" "count_list (frame_requests s) InitLayersAndUI = 1"
      by (simp_all add: lifecycle_inv_def)
    moreover have "initialised s' = initialised s"
      unfolding s'_def by (rule initialised_fields) simp_all
    ultimately have s': "lifecycle_inv s'" "\<not> pending s'"
      using 3 by (simp_all add: s'_def lifecycle_inv_def pending_def)
    have "ordinary s' (fold (run_callback env) (frame_queue s) s')"
      using 3 by (intro fold_run_callback_ordinary)
    moreover have "step env AnimationFrame s = fold (run_callback env) (frame_queue s) s'"
      by (simp add: s'_def)
    ultimately show ?thesis
      using 3 ordinary_inv [OF s'] by simp
  qed
  then show "lifecycle_inv (step env AnimationFrame s)"
    and "inited (step env AnimationFrame s) = inited s"
    and "inited s \<Longrightarrow> \<not> pending (step env AnimationFrame s)"
    by simp_all
  then show "\<not> pending s \<Longrightarrow> \<not> pending (step env AnimationFrame s)"
    by (simp add: pending_def)
qed

lemma inv_dom:
  "lifecycle_inv (s\<lparr>dom := d\<rparr>) = lifecycle_inv s"
  "pending (s\<lparr>dom := d\<rparr>) = pending s"
proof -
  have "initialised (s\<lparr>dom := d\<rparr>) = initialised s"
    by (rule initialised_fields) simp_all
  moreover have "fresh (s\<lparr>dom := d\<rparr>) = fresh s"
    by (simp add: fresh_def constructed_def)
  ultimately show "lifecycle_inv (s\<lparr>dom := d\<rparr>) = lifecycle_inv s"
    by (simp add: lifecycle_inv_def)
  show "pending (s\<lparr>dom := d\<rparr>) = pending s"
    by (simp add: pending_def)
qed

text \<open>
  Running callbacks that are not the initialisation, when whatever is registered is
  registered only once the widget is initialised.
\<close>

lemma run_registered:
  assumes "lifecycle_inv s" and "InitLayersAndUI \<notin> set cbs" and "pending s \<Longrightarrow> cbs = []"
  shows "lifecycle_inv (fold (run_callback env) cbs s)"
    and "inited (fold (run_callback env) cbs s) = inited s"
    and "pending (fold (run_callback env) cbs s) = pending s"
proof -
  have "lifecycle_inv (fold (run_callback env) cbs s)
      \<and> inited (fold (run_callback env) cbs s) = inited s
      \<and> pending (fold (run_callback env) cbs s) = pending s"
  proof (cases "pending s")
    case True
    with assms show ?thesis
      by simp
  next
    case False
    have "ordinary s (fold (run_callback env) cbs s)"
      using assms(2) by (rule fold_run_callback_ordinary)
    from ordinary_inv [OF assms(1) False this] ordinary_keeps(1) [OF this] False
    show ?thesis
      by simp
  qed
  then show "lifecycle_inv (fold (run_callback env) cbs s)"
    and "inited (fold (run_callback env) cbs s) = inited s"
    and "pending (fold (run_callback env) cbs s) = pending s"
    by simp_all
qed

lemma step_interval:
  assumes "lifecycle_inv s"
  shows "lifecycle_inv (step env (IntervalElapsed h) s)"
    and "inited (step env (IntervalElapsed h) s) = inited s"
    and "pending (step env (IntervalElapsed h) s) = pending s"
proof -
  define cbs where
    "cbs = map (\<lambda>(h', cb, ms). cb) (filter (\<lambda>(h', cb, ms). h' = h) (intervals s))"
  have step: "step env (IntervalElapsed h) s = fold (run_callback env) cbs s"
    by (simp add: cbs_def)
  have empty: "cbs = []" if "pending s"
    using fresh_nothing_registered(1) [OF pending_fresh [OF assms that]] by (simp add: cbs_def)
  have "InitLayersAndUI \<notin> set cbs"
  proof (cases "pending s")
    case True
    then show ?thesis
      by (simp add: empty)
  next
    case False
    from initialised_registered(2) [OF assms False] show ?thesis
      by (simp add: cbs_def)
  qed
  from run_registered [OF assms this empty] show
    "lifecycle_inv (step env (IntervalElapsed h) s)"
    "inited (step env (IntervalElapsed h) s) = inited s"
    "pending (step env (IntervalElapsed h) s) = pending s"
    unfolding step by simp_all
qed

lemma step_map_event:
  assumes "lifecycle_inv s"
  shows "lifecycle_inv (step env (MapEvent type) s)"
    and "inited (step env (MapEvent type) s) = inited s"
    and "pending (step env (MapEvent type) s) = pending s"
proof -
  define cbs where "cbs = map snd (filter (\<lambda>(t, cb). t = type) (map_listeners s))"
  have step: "step env (MapEvent type) s = fold (run_callback env) cbs s"
    by (simp add: cbs_def)
  have empty: "cbs = []" if "pending s"
    using fresh_nothing_registered(3) [OF pending_fresh [OF assms that]] by (simp add: cbs_def)
  have "InitLayersAndUI \<notin> set cbs"
  proof (cases "pending s")
    case True
    then show ?thesis
      by (simp add: empty)
  next
    case False
    from initialised_registered(4) [OF assms False] show ?thesis
      by (simp add: cbs_def)
  qed
  from run_registered [OF assms this empty] show
    "lifecycle_inv (step env (MapEvent type) s)"
    "inited (step env (MapEvent type) s) = inited s"
    "pending (step env (MapEvent type) s) = pending s"
    unfolding step by simp_all
qed

text \<open>
  A change of visibility: once the widget is initialised, a change to visible refreshes
  every incident layer once, and a change to hidden refreshes nothing.
\<close>

lemma step_visibility:
  assumes "lifecycle_inv s"
  shows "lifecycle_inv (step env (VisibilityChange v) s)"
    and "inited (step env (VisibilityChange v) s) = inited s"
    and "pending (step env (VisibilityChange v) s) = pending s"
    and "refreshed (step env (VisibilityChange v) s)
          = refreshed s @ (if v = Visible then incident_layers s else [])"
    and "incident_layers (step env (VisibilityChange v) s) = incident_layers s"
proof -
  define t where "t = s\<lparr>visibilityState := v\<rparr>"
  define cbs where
    "cbs = map snd (filter (\<lambda>(type, cb). type = ''visibilitychange'') (document_listeners s))"
  have step: "step env (VisibilityChange v) s = fold (run_callback env) cbs t"
    by (simp add: cbs_def t_def)
  have "incident_layers t = incident_layers s"
    unfolding t_def by (rule incident_layers_fields) simp_all
  then have t: "lifecycle_inv t" "pending t = pending s" "inited t = inited s"
    "refreshed t = refreshed s" "incident_layers t = incident_layers s"
    using assms by (simp_all add: t_def inv_visibilityState)
  have empty: "cbs = []" if "pending s"
    using fresh_nothing_registered(2) [OF pending_fresh [OF assms that]] by (simp add: cbs_def)
  have listener: "cbs = [OnVisibilityRefresh]" if "\<not> pending s"
    using initialised_registered(3) [OF assms that] by (simp add: cbs_def)
  have "InitLayersAndUI \<notin> set cbs"
    using empty listener by (cases "pending s") simp_all
  moreover have "pending t \<Longrightarrow> cbs = []"
    using empty t by simp
  ultimately show "lifecycle_inv (step env (VisibilityChange v) s)"
    "inited (step env (VisibilityChange v) s) = inited s"
    "pending (step env (VisibilityChange v) s) = pending s"
    using run_registered [OF t(1), of cbs env] t unfolding step by simp_all
  show "refreshed (step env (VisibilityChange v) s)
      = refreshed s @ (if v = Visible then incident_layers s else [])"
  proof (cases "pending s")
    case True
    from fresh_nothing_registered(4) [OF pending_fresh [OF assms True]] empty [OF True] t
    show ?thesis
      by (simp only: step) simp
  next
    case False
    have "visibilityState t = v"
      by (simp add: t_def)
    with listener [OF False] t show ?thesis
      by (simp only: step) (simp add: onVisibilityRefresh_def refreshAllLayers_alt)
  qed
  show "incident_layers (step env (VisibilityChange v) s) = incident_layers s"
  proof (cases "pending s")
    case True
    with empty t show ?thesis
      by (simp only: step) simp
  next
    case False
    have "incident_layers (t\<lparr>refreshed := rf\<rparr>) = incident_layers t" for rf
      by (rule incident_layers_fields) simp_all
    with False listener t show ?thesis
      by (simp only: step) (simp add: onVisibilityRefresh_def refreshAllLayers_alt)
  qed
qed

lemma step_inv:
  assumes "lifecycle_inv s"
  shows "lifecycle_inv (step env e s)"
    and "inited (step env e s) = (inited s \<or> (\<exists>options. e = Update options))"
proof -
  have "lifecycle_inv (step env e s)
      \<and> inited (step env e s) = (inited s \<or> (\<exists>options. e = Update options))"
  proof (cases e)
    case (Update options)
    with step_update [OF assms, of env options] show ?thesis
      by simp
  next
    case AnimationFrame
    with step_frame(1,2) [OF assms, of env] show ?thesis
      by simp
  next
    case (IntervalElapsed h)
    with step_interval(1,2) [OF assms, of env h] show ?thesis
      by simp
  next
    case (VisibilityChange v)
    with step_visibility(1,2) [OF assms, of env v] show ?thesis
      by simp
  next
    case (MapEvent type)
    with step_map_event(1,2) [OF assms, of env type] show ?thesis
      by simp
  next
    case (Click x)
    with assms show ?thesis
      by (simp add: inv_dom)
  next
    case (KeyDown x key)
    with assms show ?thesis
      by (simp add: inv_dom)
  qed
  then show "lifecycle_inv (step env e s)"
    and "inited (step env e s) = (inited s \<or> (\<exists>options. e = Update options))"
    by simp_all
qed

lemma run_snoc: "run env (es @ [e]) s = step env e (run env es s)"
  by (simp add: run_def)

lemma run_append: "run env (es @ es') s = run env es' (run env es s)"
  by (simp add: run_def)

lemma run_inv:
  assumes "lifecycle_inv s"
  shows "lifecycle_inv (run env es s)"
    and "inited (run env es s) = (inited s \<or> (\<exists>options. Update options \<in> set es))"
proof -
  have "lifecycle_inv (run env es s)
      \<and> inited (run env es s) = (inited s \<or> (\<exists>options. Update options \<in> set es))"
  proof (induction es rule: rev_induct)
    case Nil
    with assms show ?case
      by (simp add: run_def)
  next
    case (snoc e es)
    with step_inv [of "run env es s" env e] show ?case
      by (auto simp add: run_snoc)
  qed
  then show "lifecycle_inv (run env es s)"
    and "inited (run env es s) = (inited s \<or> (\<exists>options. Update options \<in> set es))"
    by simp_all
qed

subsection \<open>The example page\<close>

lemma example_constructed:
  "constructor (Some \<lparr>element = Some 0\<rparr>) example_document = Inr example_visual"
proof -
  have "\<exists>s. constructor (Some \<lparr>element = Some 0\<rparr>) example_document = Inr s"
    by (simp add: constructor_def createMapContainer_def initMap_def page_def
          example_document_def getElementById_def createElement_def new_layer_def Let_def)
  then show ?thesis
    by (auto simp add: example_visual_def)
qed

lemma pending_update: "pending (update options s) = pending s"
proof -
  obtain c where "update options s =
     s\<lparr>inited := True,
       frame_requests := frame_requests s @ (if inited s then [] else [InitLayersAndUI])
         @ [InvalidateSize],
       frame_queue := frame_queue s @ (if inited s then [] else [InitLayersAndUI])
         @ [InvalidateSize],
       console := c\<rparr>"
    using update_frame by blast
  then show ?thesis
    by (simp add: pending_def)
qed

lemma constructed_iff_pending:
  assumes "lifecycle_inv s"
  shows "constructed s = pending s"
proof (cases "pending s")
  case True
  from fresh_nothing_registered(5) [OF pending_fresh [OF assms True]] True show ?thesis
    by simp
next
  case False
  from initialised_registered(1) [OF assms False] have "countiesLayer s = Some 2"
    by (simp add: initialised_def)
  with False show ?thesis
    by (simp add: constructed_def)
qed

subsection \<open>Deferred initialisation\<close>

text \<open>
  C1. Whatever happens to a constructed widget, \<^verbatim>\<open>initLayersAndUI\<close> has been passed to
  \<^verbatim>\<open>requestAnimationFrame\<close> once if there was an update and never otherwise (so it is the
  first update that requests it, and no later event does again); and the widget is in the
  state \<open>Constructed\<close> (no overlay layer, no layer control, no timer) exactly as long
  as that deferred call has not run.
\<close>

theorem deferred_init_once:
  assumes "constructor options document = Inr s0"
  shows "count_list (frame_requests (run env es s0)) InitLayersAndUI
           = (if (\<exists>opts. Update opts \<in> set es) then 1 else 0)
       \<and> constructed (run env es s0) = pending (run env es s0)"
proof -
  note s0 = constructor_fresh [OF assms] constructor_inv [OF assms]
  from run_inv [OF s0(5), of env es] s0(2)
  have inv: "lifecycle_inv (run env es s0)"
    and flag: "inited (run env es s0) = (\<exists>opts. Update opts \<in> set es)"
    by simp_all
  from inv have "count_list (frame_requests (run env es s0)) InitLayersAndUI
      = (if inited (run env es s0) then 1 else 0)"
    by (simp add: lifecycle_inv_def)
  with flag constructed_iff_pending [OF inv] show ?thesis
    by simp
qed

theorem deferred_init_once_witness:
  "constructor (Some \<lparr>element = Some 0\<rparr>) example_document = Inr example_visual
   \<and> count_list
       (frame_requests
          (run example_environment
             [Update \<lparr>dataViews = None\<rparr>, Update \<lparr>dataViews = None\<rparr>] example_visual))
       InitLayersAndUI = 1
   \<and> constructed
       (run example_environment
          [Update \<lparr>dataViews = None\<rparr>, Update \<lparr>dataViews = None\<rparr>] example_visual)
   \<and> count_list
       (frame_requests
          (run example_environment
             [Update \<lparr>dataViews = None\<rparr>, AnimationFrame, Update \<lparr>dataViews = None\<rparr>]
             example_visual))
       InitLayersAndUI = 1
   \<and> \<not> constructed
       (run example_environment
          [Update \<lparr>dataViews = None\<rparr>, AnimationFrame, Update \<lparr>dataViews = None\<rparr>]
          example_visual)"
proof -
  note c = example_constructed
  note s0 = constructor_fresh [OF c] constructor_inv [OF c]
  let ?u = "Update \<lparr>dataViews = None\<rparr>"
  have waiting: "pending (run example_environment [?u, ?u] example_visual)"
    using s0(2) by (simp add: run_def pending_update) (simp add: pending_def)
  have inv1: "lifecycle_inv (run example_environment [?u] example_visual)"
    and flag1: "inited (run example_environment [?u] example_visual)"
    using run_inv [OF s0(5), of example_environment "[?u]"] by simp_all
  have "run example_environment [?u, AnimationFrame, ?u] example_visual
      = step example_environment ?u
          (step example_environment AnimationFrame
             (run example_environment [?u] example_visual))"
    by (simp add: run_def)
  with step_frame(4) [OF inv1 flag1, of example_environment]
  have ran: "\<not> pending (run example_environment [?u, AnimationFrame, ?u] example_visual)"
    by (simp add: pending_update)
  from deferred_init_once [OF c, of example_environment "[?u, ?u]"]
    deferred_init_once [OF c, of example_environment "[?u, AnimationFrame, ?u]"]
    c waiting ran
  show ?thesis
    by simp
qed

subsection \<open>The refresh timer\<close>

lemma reachable_timer:
  assumes "lifecycle_inv s"
  shows "(intervals s = [] \<and> autoRefreshTimer s = None \<and> next_handle s = 1)
       \<or> (intervals s = [(1, RefreshAllLayers, 21600000)] \<and> autoRefreshTimer s = Some 1
          \<and> next_handle s = 2)"
proof (cases "pending s")
  case True
  from pending_fresh [OF assms True] show ?thesis
    by (simp add: fresh_def constructed_def)
next
  case False
  from initialised_registered(1) [OF assms False] show ?thesis
    by (simp add: initialised_def)
qed

text \<open>
  C2. In every state a constructed widget can reach, at most one interval runs. A call of
  \<^verbatim>\<open>startAutoRefresh\<close> there leaves at most one; a second call with a positive period
  leaves exactly one, the one it started itself, whatever the first call was; and after
  \<^verbatim>\<open>destroy\<close> none runs, be it called at once or after a call of \<^verbatim>\<open>startAutoRefresh\<close>.
\<close>

theorem one_refresh_timer:
  assumes "constructor options document = Inr s0"
  shows "length (intervals (run env es s0)) \<le> 1
       \<and> length (intervals (startAutoRefresh ms (run env es s0))) \<le> 1
       \<and> (0 < ms' \<longrightarrow>
            intervals (startAutoRefresh ms' (startAutoRefresh ms (run env es s0)))
              = [(next_handle (startAutoRefresh ms (run env es s0)), RefreshAllLayers, ms')])
       \<and> intervals (destroy (run env es s0)) = []
       \<and> intervals (destroy (startAutoRefresh ms (run env es s0))) = []"
proof -
  define s where "s = run env es s0"
  have "lifecycle_inv s"
    unfolding s_def by (rule run_inv(1) [OF constructor_inv [OF assms]])
  from reachable_timer [OF this]
  have "length (intervals s) \<le> 1
       \<and> length (intervals (startAutoRefresh ms s)) \<le> 1
       \<and> (0 < ms' \<longrightarrow>
            intervals (startAutoRefresh ms' (startAutoRefresh ms s))
              = [(next_handle (startAutoRefresh ms s), RefreshAllLayers, ms')])
       \<and> intervals (destroy s) = []
       \<and> intervals (destroy (startAutoRefresh ms s)) = []"
    by (auto simp add: startAutoRefresh_alt destroy_alt)
  then show ?thesis
    unfolding s_def .
qed

theorem one_refresh_timer_witness:
  "constructor (Some \<lparr>element = Some 0\<rparr>) example_document = Inr example_visual
   \<and> (0 :: int) < 1000
   \<and> length (intervals
        (run example_environment [Update \<lparr>dataViews = None\<rparr>, AnimationFrame] example_visual))
       \<le> 1
   \<and> length (intervals
        (startAutoRefresh 1000
           (startAutoRefresh 500
              (run example_environment [Update \<lparr>dataViews = None\<rparr>, AnimationFrame]
                 example_visual)))) = 1
   \<and> intervals
        (destroy
           (run example_environment [Update \<lparr>dataViews = None\<rparr>, AnimationFrame]
              example_visual)) = []"
  using one_refresh_timer [OF example_constructed, of example_environment
      "[Update \<lparr>dataViews = None\<rparr>, AnimationFrame]" 500 1000]
    example_constructed
  by simp

subsection \<open>Visibility\<close>

lemma run_visibility:
  assumes "lifecycle_inv s"
  shows "refreshed (run env (map VisibilityChange vs) s)
       = refreshed s @ concat (map (\<lambda>v. if v = Visible then incident_layers s else []) vs)"
  using assms
proof (induction vs arbitrary: s)
  case Nil
  then show ?case
    by (simp add: run_def)
next
  case (Cons v vs)
  note first = step_visibility [OF Cons.prems, of env v]
  have "run env (map VisibilityChange (v # vs)) s
      = run env (map VisibilityChange vs) (step env (VisibilityChange v) s)"
    by (simp add: run_def)
  then have "refreshed (run env (map VisibilityChange (v # vs)) s)
      = refreshed (step env (VisibilityChange v) s)
        @ concat (map (\<lambda>v'. if v' = Visible
                                then incident_layers (step env (VisibilityChange v) s) else []) vs)"
    using Cons.IH [OF first(1)] by (simp only:)
  also have "\<dots> = (refreshed s @ (if v = Visible then incident_layers s else []))
        @ concat (map (\<lambda>v'. if v' = Visible then incident_layers s else []) vs)"
    by (simp only: first(4,5))
  finally show ?case
    by simp
qed

text \<open>
  C4. After any history of a constructed widget, a sequence of visibility changes adds to
  the log of refreshes one refresh of every incident layer for each change to visible, in
  order, and nothing for a change to hidden. Once the deferred initialisation has run the
  incident layers are the ten work zone layers (before that there is none, and no
  listener).
\<close>

theorem visibility_requery:
  assumes "constructor options document = Inr s0"
  shows "refreshed (run env (es @ map VisibilityChange vs) s0)
           = refreshed (run env es s0)
             @ concat (map (\<lambda>v. if v = Visible then incident_layers (run env es s0) else []) vs)
       \<and> (\<not> pending (run env es s0) \<longrightarrow>
            incident_layers (run env es s0) = [3, 4, 5, 6, 7, 8, 9, 10, 11, 12])"
proof -
  have inv: "lifecycle_inv (run env es s0)"
    by (rule run_inv(1) [OF constructor_inv [OF assms]])
  from run_visibility [OF inv, of env vs] have
    "refreshed (run env (es @ map VisibilityChange vs) s0)
       = refreshed (run env es s0)
         @ concat (map (\<lambda>v. if v = Visible then incident_layers (run env es s0) else []) vs)"
    by (simp add: run_append)
  moreover have "incident_layers (run env es s0) = [3, 4, 5, 6, 7, 8, 9, 10, 11, 12]"
    if "\<not> pending (run env es s0)"
    using initialised_registered(1) [OF inv that] by (simp add: initialised_def)
  ultimately show ?thesis
    by simp
qed

lemma example_initialised:
  "lifecycle_inv (run example_environment [Update \<lparr>dataViews = None\<rparr>, AnimationFrame] example_visual)"
  "\<not> pending (run example_environment [Update \<lparr>dataViews = None\<rparr>, AnimationFrame] example_visual)"
proof -
  note s0 = constructor_inv [OF example_constructed]
  let ?u = "Update \<lparr>dataViews = None\<rparr>"
  have inv1: "lifecycle_inv (run example_environment [?u] example_visual)"
    and flag1: "inited (run example_environment [?u] example_visual)"
    using run_inv [OF s0, of example_environment "[?u]"] by simp_all
  have "run example_environment [?u, AnimationFrame] example_visual
      = step example_environment AnimationFrame (run example_environment [?u] example_visual)"
    by (simp add: run_def)
  with step_frame(4) [OF inv1 flag1, of example_environment]
  show "\<not> pending (run example_environment [?u, AnimationFrame] example_visual)"
    by simp
  show "lifecycle_inv (run example_environment [?u, AnimationFrame] example_visual)"
    by (rule run_inv(1) [OF s0])
qed

theorem visibility_requery_witness:
  "constructor (Some \<lparr>element = Some 0\<rparr>) example_document = Inr example_visual
   \<and> \<not> pending
        (run example_environment [Update \<lparr>dataViews = None\<rparr>, AnimationFrame] example_visual)
   \<and> refreshed
        (run example_environment
           ([Update \<lparr>dataViews = None\<rparr>, AnimationFrame]
            @ map VisibilityChange [Hidden, Visible]) example_visual)
       = refreshed
           (run example_environment [Update \<lparr>dataViews = None\<rparr>, AnimationFrame] example_visual)
         @ [3, 4, 5, 6, 7, 8, 9, 10, 11, 12]
   \<and> refreshed
        (run example_environment
           ([Update \<lparr>dataViews = None\<rparr>, AnimationFrame]
            @ map VisibilityChange [Hidden]) example_visual)
       = refreshed
           (run example_environment [Update \<lparr>dataViews = None\<rparr>, AnimationFrame] example_visual)"
  using
    visibility_requery [OF example_constructed, of example_environment
      "[Update \<lparr>dataViews = None\<rparr>, AnimationFrame]" "[Hidden, Visible]"]
    visibility_requery [OF example_constructed, of example_environment
      "[Update \<lparr>dataViews = None\<rparr>, AnimationFrame]" "[Hidden]"]
    example_constructed example_initialised(2)
  by simp

subsection \<open>The layers after initialisation\<close>

lemma initialised_layers:
  assumes "initialised s"
  shows "map_layers s = [0, 2, 4] \<and> darkMap s = Some 0 \<and> countiesLayer s = Some 2
       \<and> constructionLayer s = Some 4
       \<and> filter (\<lambda>r. r \<in> set (map_layers s)) (incident_layers s) = [4]
       \<and> length (incident_layers s) = 10
       \<and> map snd (work_zones s) = map Some (incident_layers s)
       \<and> map fst (unrendered s (work_zones s))
           = [''Truck Closure'', ''Night Construction'', ''Maintenance'',
              ''Night Time Maintenance'', ''Emergency Road Work'', ''Road Obstruction'',
              ''Weather Event'', ''Special Event'', ''Other'']
       \<and> basemaps s = [(''Dark Basemap'', darkMap s), (''Light Basemap'', lightMap s)]
       \<and> unrendered s (basemaps s) = [(''Light Basemap'', lightMap s)]
       \<and> rendered s (darkMap s)"
proof -
  from assms have s: "map_layers s = [0, 2, 4]" "darkMap s = Some 0" "lightMap s = Some 1"
    "countiesLayer s = Some 2" "constructionLayer s = Some 4"
    "incident_layers s = [3, 4, 5, 6, 7, 8, 9, 10, 11, 12]"
    "basemaps s = [(''Dark Basemap'', Some 0), (''Light Basemap'', Some 1)]"
    "work_zones s =
          [(''Truck Closure'', Some 3), (''Construction'', Some 4),
           (''Night Construction'', Some 5), (''Maintenance'', Some 6),
           (''Night Time Maintenance'', Some 7), (''Emergency Road Work'', Some 8),
           (''Road Obstruction'', Some 9), (''Weather Event'', Some 10),
           (''Special Event'', Some 11), (''Other'', Some 12)]"
    by (simp_all add: initialised_def)
  show ?thesis
    by (simp add: s unrendered_def rendered_def)
qed

text \<open>
  C5, as the code has it. Once the deferred initialisation has run, and whatever happens
  afterwards short of a selection in the control, the map holds the dark basemap, the
  county layer and one incident layer, the construction layer. All ten incident layers
  are entries of the control's work zone group, and the nine others are not on the map.
  The control has two basemaps, the dark one, which is on the map, and the light one,
  which is the only one that is not.
\<close>

theorem initial_layers:
  assumes "constructor options document = Inr s0" and "\<not> pending (run env es s0)"
  shows "map_layers (run env es s0) = [0, 2, 4] \<and> darkMap (run env es s0) = Some 0
       \<and> countiesLayer (run env es s0) = Some 2
       \<and> constructionLayer (run env es s0) = Some 4
       \<and> filter (\<lambda>r. r \<in> set (map_layers (run env es s0))) (incident_layers (run env es s0))
           = [4]
       \<and> length (incident_layers (run env es s0)) = 10
       \<and> map snd (work_zones (run env es s0)) = map Some (incident_layers (run env es s0))
       \<and> map fst (unrendered (run env es s0) (work_zones (run env es s0)))
           = [''Truck Closure'', ''Night Construction'', ''Maintenance'',
              ''Night Time Maintenance'', ''Emergency Road Work'', ''Road Obstruction'',
              ''Weather Event'', ''Special Event'', ''Other'']
       \<and> basemaps (run env es s0)
           = [(''Dark Basemap'', darkMap (run env es s0)),
              (''Light Basemap'', lightMap (run env es s0))]
       \<and> unrendered (run env es s0) (basemaps (run env es s0))
           = [(''Light Basemap'', lightMap (run env es s0))]
       \<and> rendered (run env es s0) (darkMap (run env es s0))"
proof -
  have "lifecycle_inv (run env es s0)"
    by (rule run_inv(1) [OF constructor_inv [OF assms(1)]])
  from initialised_registered(1) [OF this assms(2)] show ?thesis
    by (rule initialised_layers)
qed

theorem initial_layers_witness:
  "constructor (Some \<lparr>element = Some 0\<rparr>) example_document = Inr example_visual
   \<and> \<not> pending
        (run example_environment [Update \<lparr>dataViews = None\<rparr>, AnimationFrame] example_visual)
   \<and> map_layers
        (run example_environment [Update \<lparr>dataViews = None\<rparr>, AnimationFrame] example_visual)
       = [0, 2, 4]
   \<and> constructionLayer
        (run example_environment [Update \<lparr>dataViews = None\<rparr>, AnimationFrame] example_visual)
       = Some 4"
  using initial_layers [OF example_constructed example_initialised(2)]
    example_constructed example_initialised(2)
  by simp

text \<open>
  C5, as it is stated, asks for two basemaps that are registered with the control and not
  rendered. On the example page, after the first update and its frame, there is one.
\<close>

theorem one_unrendered_basemap:
  "length
     (unrendered
        (run example_environment [Update \<lparr>dataViews = None\<rparr>, AnimationFrame] example_visual)
        (basemaps
           (run example_environment [Update \<lparr>dataViews = None\<rparr>, AnimationFrame]
              example_visual))) = 1
   \<and> length
        (unrendered
           (run example_environment [Update \<lparr>dataViews = None\<rparr>, AnimationFrame] example_visual)
           (basemaps
              (run example_environment [Update \<lparr>dataViews = None\<rparr>, AnimationFrame]
                 example_visual))) \<noteq> 2
   \<and> map fst
        (basemaps
           (run example_environment [Update \<lparr>dataViews = None\<rparr>, AnimationFrame]
              example_visual)) = [''Dark Basemap'', ''Light Basemap'']
   \<and> rendered
        (run example_environment [Update \<lparr>dataViews = None\<rparr>, AnimationFrame] example_visual)
        (darkMap
           (run example_environment [Update \<lparr>dataViews = None\<rparr>, AnimationFrame]
              example_visual))"
proof -
  define s where
    "s = run example_environment [Update \<lparr>dataViews = None\<rparr>, AnimationFrame] example_visual"
  have "initialised s"
    unfolding s_def by (rule initialised_registered(1) [OF example_initialised])
  from initialised_layers [OF this]
  have u: "unrendered s (basemaps s) = [(''Light Basemap'', lightMap s)]"
    and b: "basemaps s = [(''Dark Basemap'', darkMap s), (''Light Basemap'', lightMap s)]"
    and r: "rendered s (darkMap s)"
    by blast+
  have "length (unrendered s (basemaps s)) = 1"
    by (simp only: u) simp
  moreover from this have "length (unrendered s (basemaps s)) \<noteq> 2"
    by simp
  moreover have "map fst (basemaps s) = [''Dark Basemap'', ''Light Basemap'']"
    by (simp only: b) simp
  ultimately show ?thesis
    using r unfolding s_def by blast
qed

subsection \<open>Query predicates\<close>

lemma initLayersAndUI_work_zones:
  "truckClosureLayer (initLayersAndUI env s) = Some (next_ref s + 1)"
  "constructionLayer (initLayersAndUI env s) = Some (next_ref s + 2)"
  "nightConstructionLayer (initLayersAndUI env s) = Some (next_ref s + 3)"
  "maintenanceLayer (initLayersAndUI env s) = Some (next_ref s + 4)"
  "nightMaintenanceLayer (initLayersAndUI env s) = Some (next_ref s + 5)"
  "emergencyLayer (initLayersAndUI env s) = Some (next_ref s + 6)"
  "obstructionLayer (initLayersAndUI env s) = Some (next_ref s + 7)"
  "weatherLayer (initLayersAndUI env s) = Some (next_ref s + 8)"
  "specialLayer (initLayersAndUI env s) = Some (next_ref s + 9)"
  "otherLayer (initLayersAndUI env s) = Some (next_ref s + 10)"
  by (simp_all add: initLayersAndUI_stages init_auto_refresh_alt init_layer_control_alt
        init_work_zones_alt init_county_overlay_alt)

lemma initLayersAndUI_heap:
  "heap (initLayersAndUI env s) = heap (init_work_zones (init_county_overlay env s))"
  by (simp add: initLayersAndUI_stages init_auto_refresh_alt init_layer_control_alt)

text \<open>
  C6. After \<^verbatim>\<open>initLayersAndUI\<close>, run in any state, each of the ten fields refers to a
  feature layer whose \<^verbatim>\<open>where\<close> option is \<^verbatim>\<open>IncidentType = '<Type>'\<close> for the incident
  type of the field.
\<close>

theorem query_predicates:
  "where_of (initLayersAndUI env s) (truckClosureLayer (initLayersAndUI env s))
     = Some (spec_predicate ''Truck Closure'')
   \<and> where_of (initLayersAndUI env s) (constructionLayer (initLayersAndUI env s))
     = Some (spec_predicate ''Construction'')
   \<and> where_of (initLayersAndUI env s) (nightConstructionLayer (initLayersAndUI env s))
     = Some (spec_predicate ''Night Time Construction'')
   \<and> where_of (initLayersAndUI env s) (maintenanceLayer (initLayersAndUI env s))
     = Some (spec_predicate ''Maintenance'')
   \<and> where_of (initLayersAndUI env s) (nightMaintenanceLayer (initLayersAndUI env s))
     = Some (spec_predicate ''Night Time Maintenance'')
   \<and> where_of (initLayersAndUI env s) (emergencyLayer (initLayersAndUI env s))
     = Some (spec_predicate ''Emergency Road Work'')
   \<and> where_of (initLayersAndUI env s) (obstructionLayer (initLayersAndUI env s))
     = Some (spec_predicate ''Road Obstruction'')
   \<and> where_of (initLayersAndUI env s) (weatherLayer (initLayersAndUI env s))
     = Some (spec_predicate ''Weather Event'')
   \<and> where_of (initLayersAndUI env s) (specialLayer (initLayersAndUI env s))
     = Some (spec_predicate ''Special Event'')
   \<and> where_of (initLayersAndUI env s) (otherLayer (initLayersAndUI env s))
     = Some (spec_predicate ''Other'')"
  unfolding where_of_def initLayersAndUI_work_zones initLayersAndUI_heap
  by (intro conjI)
     (simp_all add: init_work_zones_alt init_county_overlay_alt spec_predicate_def)

section \<open>Wiring the group headers\<close>

subsection \<open>Lists of elements\<close>

lemma elements_in_append: "elements_in (ns @ ms) = elements_in ns @ elements_in ms"
  by (induction ns) simp_all

lemma textContent_in_append: "textContent_in (ns @ ms) = textContent_in ns @ textContent_in ms"
  by (induction ns) simp_all

lemma path_in_append:
  "path_in y (ns @ ms) = (case path_in y ns of [] \<Rightarrow> path_in y ms | p # ps \<Rightarrow> p # ps)"
  by (induction ns) (simp_all split: list.splits)

lemma find_filter: "find P xs = (case filter P xs of [] \<Rightarrow> None | x # ys \<Rightarrow> Some x)"
  by (induction xs) simp_all

text \<open>What a changed document keeps.\<close>

lemma changed_textContent:
  "changed change K n n' \<Longrightarrow> textContent n' = textContent n"
  "changed_in change K ns ns' \<Longrightarrow> textContent_in ns' = textContent_in ns"
  by (induction rule: changed_changed_in.inducts) simp_all

lemma changed_elements:
  assumes same: "\<And>i e e'. change i e e' \<Longrightarrow> P i e' = P i e"
    and new: "\<And>k e. k \<in> K \<Longrightarrow> plain e \<Longrightarrow> \<not> P k e"
  shows "changed change K n n' \<Longrightarrow>
      list_all2 (same_element change K)
        (filter (\<lambda>(i, e, cs). P i e) (elements n)) (filter (\<lambda>(i, e, cs). P i e) (elements n'))"
    and "changed_in change K ns ns' \<Longrightarrow>
      list_all2 (same_element change K)
        (filter (\<lambda>(i, e, cs). P i e) (elements_in ns))
        (filter (\<lambda>(i, e, cs). P i e) (elements_in ns'))"
proof (induction rule: changed_changed_in.inducts)
  case (leaf t)
  then show ?case
    by simp
next
  case (elem i e e' cs cs')
  then show ?case
    by (simp add: same same_element_def)
next
  case empty
  then show ?case
    by simp
next
  case (cons n n' ns ns')
  then show ?case
    by (simp add: list_all2_appendI)
next
  case (extra k e ns ns')
  then show ?case
    by (simp add: new)
qed

lemma changed_path:
  assumes "y \<notin> K"
  shows "changed change K n n' \<Longrightarrow>
      list_all2 (same_element change K) (path_to y n) (path_to y n')"
    and "changed_in change K ns ns' \<Longrightarrow>
      list_all2 (same_element change K) (path_in y ns) (path_in y ns')"
proof (induction rule: changed_changed_in.inducts)
  case (leaf t)
  then show ?case
    by simp
next
  case (elem i e e' cs cs')
  show ?case
  proof (cases "i = y")
    case True
    with elem show ?thesis
      by (simp add: same_element_def)
  next
    case False
    have last: "list_all2 (same_element change K) [(i, e, cs)] [(i, e', cs')]"
      using elem by (simp add: same_element_def)
    have ih: "list_all2 (same_element change K) (path_in y cs) (path_in y cs')"
      using elem by blast
    show ?thesis
    proof (cases "path_in y cs")
      case Nil
      with ih have "path_in y cs' = []"
        by simp
      with Nil False show ?thesis
        by simp
    next
      case (Cons p ps)
      with ih obtain p' ps' where p': "path_in y cs' = p' # ps'"
        by (cases "path_in y cs'") simp_all
      from ih last have "list_all2 (same_element change K)
          (path_in y cs @ [(i, e, cs)]) (path_in y cs' @ [(i, e', cs')])"
        by (rule list_all2_appendI)
      with Cons p' False show ?thesis
        by simp
    qed
  qed
next
  case empty
  then show ?case
    by simp
next
  case (cons n n' ns ns')
  have ih: "list_all2 (same_element change K) (path_to y n) (path_to y n')"
    "list_all2 (same_element change K) (path_in y ns) (path_in y ns')"
    using cons by blast+
  show ?case
  proof (cases "path_to y n")
    case Nil
    with ih(1) have "path_to y n' = []"
      by simp
    with Nil ih(2) show ?thesis
      by simp
  next
    case (Cons p ps)
    with ih(1) obtain p' ps' where "path_to y n' = p' # ps'"
      by (cases "path_to y n'") simp_all
    with Cons ih(1) show ?thesis
      by simp
  qed
next
  case (extra k e ns ns')
  with assms have "k \<noteq> y"
    by auto
  with extra show ?case
    by simp
qed

lemma find_related:
  assumes "list_all2 R xs ys" and "\<And>x y. R x y \<Longrightarrow> P y = P x"
  shows "rel_option R (find P xs) (find P ys)"
  using assms(1)
proof (induction rule: list_all2_induct)
  case Nil
  then show ?case
    by simp
next
  case (Cons x xs y ys)
  with assms(2) [of x y] show ?case
    by simp
qed

lemma changed_deref:
  assumes "changed_in change K ns ns'" and "c \<notin> K"
  shows "rel_option (same_element change K) (deref c ns) (deref c ns')"
proof -
  have "list_all2 (same_element change K)
      (filter (\<lambda>(i, e, cs). i = c) (elements_in ns))
      (filter (\<lambda>(i, e, cs). i = c) (elements_in ns'))"
    using assms(2) by (intro changed_elements(2) [OF _ _ assms(1)]) auto
  then show ?thesis
    unfolding deref_def find_filter [of "\<lambda>(i, e, cs). i = c"]
    by (auto simp add: list_all2_Cons1 split: list.splits)
qed

subsection \<open>The two kinds of change the wiring makes\<close>

lemma changed_refl:
  assumes "\<And>i e. change i e e"
  shows "changed change K n n" and "changed_in change K ns ns"
  by (induction n and ns rule: elements_elements_in.induct)
     (auto intro: changed_changed_in.intros assms)

lemma changed_in_append:
  assumes "changed_in change K ns ns'" and "changed_in change K ms ms'"
  shows "changed_in change K (ns @ ms) (ns' @ ms')"
proof -
  have "changed change K n n' \<Longrightarrow> True"
    and "changed_in change K ns ns' \<Longrightarrow> changed_in change K (ns @ ms) (ns' @ ms')"
    for n n'
    by (induction rule: changed_changed_in.inducts)
       (auto intro: changed_changed_in.intros assms(2))
  with assms(1) show ?thesis
    by blast
qed

text \<open>A write to fields of an element.\<close>

lemma changed_update:
  "changed (\<lambda>i e e'. e' = (if i = x then f e else e)) {} n (update_element x f n)"
  "changed_in (\<lambda>i e e'. e' = (if i = x then f e else e)) {} ns (update_in x f ns)"
  by (induction x f n and x f ns rule: update_element_update_in.induct)
     (auto intro: changed_changed_in.intros)

text \<open>The insertion of a plain element without children.\<close>

lemma changed_insert:
  assumes "plain e0"
  shows "changed (\<lambda>i e e'. e' = e) {k} n (insert_before p (Element k e0 []) r n)"
    and "changed_in (\<lambda>i e e'. e' = e) {k} ns (insert_before_in p (Element k e0 []) r ns)"
proof (induction p "Element k e0 []" r n and p "Element k e0 []" r ns
    rule: insert_before_insert_before_in.induct)
  case (1 p r t)
  then show ?case
    by (simp add: changed_changed_in.leaf)
next
  case (2 p r i e cs)
  show ?case
  proof (cases "i = p")
    case True
    let ?before = "takeWhile (\<lambda>n. \<not> is_element r n) cs"
    let ?after = "dropWhile (\<lambda>n. \<not> is_element r n) cs"
    have "changed_in (\<lambda>i e e'. e' = e) {k} ?after (Element k e0 [] # ?after)"
      by (intro changed_changed_in.extra assms changed_refl(2)) simp_all
    with changed_refl(2) [of "\<lambda>i e e'. e' = e" "{k}" ?before]
    have "changed_in (\<lambda>i e e'. e' = e) {k} (?before @ ?after)
        (?before @ Element k e0 [] # ?after)"
      by (intro changed_in_append) simp_all
    then have "changed_in (\<lambda>i e e'. e' = e) {k} cs (?before @ Element k e0 [] # ?after)"
      by simp
    with True show ?thesis
      by (simp add: changed_changed_in.elem)
  next
    case False
    with 2 show ?thesis
      by (simp add: changed_changed_in.elem)
  qed
next
  case (3 p r)
  then show ?case
    by (simp add: changed_changed_in.empty)
next
  case (4 p r n ns)
  then show ?case
    by (simp add: changed_changed_in.cons)
qed

subsection \<open>Elements and references\<close>

lemma elements_children:
  "(i, e, cs) \<in> set (elements n) \<Longrightarrow> set (elements_in cs) \<subseteq> set (elements n)"
  "(i, e, cs) \<in> set (elements_in ns) \<Longrightarrow> set (elements_in cs) \<subseteq> set (elements_in ns)"
  by (induction n and ns rule: elements_elements_in.induct) auto

lemma path_elements:
  "set (path_to y n) \<subseteq> set (elements n)"
  "set (path_in y ns) \<subseteq> set (elements_in ns)"
proof (induction y n and y ns rule: path_to_path_in.induct)
  case (1 x t)
  then show ?case
    by simp
next
  case (2 x i e cs)
  show ?case
  proof (cases "i = x")
    case True
    then show ?thesis
      by simp
  next
    case False
    with 2 have sub: "set (path_in x cs) \<subseteq> set (elements_in cs)"
      by simp
    show ?thesis
    proof (cases "path_in x cs")
      case Nil
      then show ?thesis
        by simp
    next
      case (Cons p ps)
      with sub have "set (p # ps) \<subseteq> set (elements_in cs)"
        by simp
      with Cons show ?thesis
        by auto
    qed
  qed
next
  case (3 x)
  then show ?case
    by simp
next
  case (4 x n ns)
  show ?case
  proof (cases "path_to x n")
    case Nil
    with 4 show ?thesis
      by auto
  next
    case (Cons p ps)
    with 4 have "set (p # ps) \<subseteq> set (elements n)"
      by simp
    with Cons show ?thesis
      by auto
  qed
qed

lemma path_head:
  "path_to y n = p # ps \<Longrightarrow> fst p = y"
  "path_in y ns = p # ps \<Longrightarrow> fst p = y"
  by (induction y n and y ns arbitrary: p ps and p ps rule: path_to_path_in.induct)
     (auto split: list.splits if_splits simp add: Cons_eq_append_conv)

lemma path_exists:
  "y \<in> fst ` set (elements n) \<Longrightarrow> path_to y n \<noteq> []"
  "y \<in> fst ` set (elements_in ns) \<Longrightarrow> path_in y ns \<noteq> []"
  by (induction y n and y ns rule: path_to_path_in.induct) (auto split: list.splits)

lemma deref_Some:
  assumes "deref c ns = Some (i, e, cs)"
  shows "i = c" and "(c, e, cs) \<in> set (elements_in ns)"
  using assms by (auto simp add: deref_def find_Some_iff in_set_conv_nth)

lemma find_set:
  "find P xs = Some x \<Longrightarrow> x \<in> set xs"
  by (induction xs) (auto split: if_splits)

lemma deref_ids:
  assumes "deref c ns = Some x"
  shows "c \<in> set (ids ns)"
proof -
  obtain i e cs where "x = (i, e, cs)"
    by (cases x)
  with assms have "(c, e, cs) \<in> set (elements_in ns)"
    using deref_Some(2) by blast
  then have "fst (c, e, cs) \<in> fst ` set (elements_in ns)"
    by (rule imageI)
  then show ?thesis
    by (simp add: ids_def)
qed

lemma ids_deref:
  assumes "c \<in> set (ids ns)"
  shows "deref c ns \<noteq> None"
proof -
  from assms obtain e cs where "(c, e, cs) \<in> set (elements_in ns)"
    by (auto simp add: ids_def)
  then show ?thesis
    unfolding deref_def by (auto simp add: find_None_iff)
qed

lemma querySelectorAll_elements:
  "set (querySelectorAll c cls ns) \<subseteq> set (elements_in ns)"
proof (cases "deref c ns")
  case None
  then show ?thesis
    by (simp add: querySelectorAll_def)
next
  case (Some x)
  obtain i e cs where x: "x = (i, e, cs)"
    by (cases x)
  with Some have "(c, e, cs) \<in> set (elements_in ns)"
    using deref_Some(2) by blast
  then have "set (elements_in cs) \<subseteq> set (elements_in ns)"
    by (rule elements_children(2))
  with Some x show ?thesis
    by (auto simp add: querySelectorAll_def)
qed

lemma closest_ids:
  assumes "closest cls y ns = Some h"
  shows "h \<in> set (ids ns)"
proof -
  from assms obtain x where
    "find (\<lambda>(i, e, cs). cls \<in> set (classList e)) (path_in y ns) = Some x" and "fst x = h"
    by (auto simp add: closest_def)
  then have "x \<in> set (path_in y ns)" and "fst x = h"
    by (simp_all add: find_set)
  with path_elements(2) [of y ns] show ?thesis
    by (auto simp add: ids_def)
qed

subsection \<open>What the search for a group reads\<close>

lemma alike_class:
  assumes "alike e e'" and "cls \<in> set group_classes"
  shows "cls \<in> set (classList e') \<longleftrightarrow> cls \<in> set (classList e)"
  using assms unfolding alike_def by blast

lemma plain_class:
  assumes "plain e" and "cls \<in> set group_classes"
  shows "cls \<notin> set (classList e)"
  using assms unfolding plain_def by blast

lemma changed_querySelectorAll:
  assumes ch: "changed_in change K ns ns'"
    and alike: "\<And>i e e'. change i e e' \<Longrightarrow> alike e e'"
    and cls: "cls \<in> set group_classes"
    and c: "c \<notin> K"
  shows "list_all2 (same_element change K)
      (querySelectorAll c cls ns) (querySelectorAll c cls ns')"
proof -
  have rel: "rel_option (same_element change K) (deref c ns) (deref c ns')"
    using ch c by (rule changed_deref)
  show ?thesis
  proof (cases "deref c ns")
    case None
    with rel have "deref c ns' = None"
      by simp
    with None show ?thesis
      by (simp add: querySelectorAll_def)
  next
    case (Some x)
    with rel obtain y where y: "deref c ns' = Some y" and same: "same_element change K x y"
      by (auto simp add: option_rel_Some1)
    obtain i e cs where x: "x = (i, e, cs)"
      by (cases x)
    obtain i' e' cs' where y': "y = (i', e', cs')"
      by (cases y)
    from same x y' have "changed_in change K cs cs'"
      by (simp add: same_element_def)
    then have "list_all2 (same_element change K)
        (filter (\<lambda>(j, d, ds). cls \<in> set (classList d)) (elements_in cs))
        (filter (\<lambda>(j, d, ds). cls \<in> set (classList d)) (elements_in cs'))"
      by (intro changed_elements(2) [where P = "\<lambda>j d. cls \<in> set (classList d)"])
         (simp_all add: alike_class [OF alike cls] plain_class [OF _ cls])
    with Some y x y' show ?thesis
      by (simp add: querySelectorAll_def)
  qed
qed

lemma changed_closest:
  assumes ch: "changed_in change K ns ns'"
    and alike: "\<And>i e e'. change i e e' \<Longrightarrow> alike e e'"
    and cls: "cls \<in> set group_classes"
    and y: "y \<notin> K"
  shows "closest cls y ns' = closest cls y ns"
proof -
  let ?P = "\<lambda>(i, e, cs). cls \<in> set (classList e)"
  have "list_all2 (same_element change K) (path_in y ns) (path_in y ns')"
    using y ch by (rule changed_path(2))
  then have "rel_option (same_element change K) (find ?P (path_in y ns)) (find ?P (path_in y ns'))"
    by (rule find_related) (auto simp add: same_element_def alike_class [OF alike cls])
  then show ?thesis
    unfolding closest_def
    by (cases "find ?P (path_in y ns)"; cases "find ?P (path_in y ns')")
       (auto simp add: same_element_def)
qed

lemma changed_parentElement:
  assumes ch: "changed_in change K ns ns'" and y: "y \<notin> K"
  shows "parentElement y ns' = parentElement y ns"
proof -
  have rel: "list_all2 (same_element change K) (path_in y ns) (path_in y ns')"
    using y ch by (rule changed_path(2))
  show ?thesis
  proof (cases "path_in y ns")
    case Nil
    with rel show ?thesis
      by (simp add: parentElement_def)
  next
    case outer: (Cons p ps)
    with rel obtain p' ps' where p': "path_in y ns' = p' # ps'"
      and ps: "list_all2 (same_element change K) ps ps'"
      by (auto simp add: list_all2_Cons1)
    show ?thesis
    proof (cases ps)
      case Nil
      with ps outer p' show ?thesis
        by (simp add: parentElement_def)
    next
      case (Cons q qs)
      with ps obtain q' qs' where q': "ps' = q' # qs'" and q: "same_element change K q q'"
        by (auto simp add: list_all2_Cons1)
      with outer Cons p' show ?thesis
        by (cases q; cases q') (simp add: parentElement_def same_element_def)
    qed
  qed
qed

text \<open>
  The search finds the same name span, header and group root in a changed document, when
  the changes leave the three classes alone and the identities of the added elements are
  new.
\<close>

lemma locate_changed:
  assumes ch: "changed_in change K ns ns'"
    and alike: "\<And>i e e'. change i e e' \<Longrightarrow> alike e e'"
    and K: "K \<inter> set (ids ns) = {}"
    and loc: "locate ctl g ns = Some (n, h, r)"
  shows "locate ctl g ns' = Some (n, h, r)"
proof -
  let ?P = "\<lambda>(i, e, cs). toLowerCase (trim (textContent_in cs)) = toLowerCase (trim g)"
  let ?name = "''leaflet-control-layers-group-name''"
  let ?label = "''leaflet-control-layers-group-label''"
  let ?group = "''leaflet-control-layers-group''"
  from loc obtain c where c: "container ctl = Some c"
    by (cases "container ctl") (simp_all add: locate_def)
  from loc c obtain e cs where found: "find ?P (querySelectorAll c ?name ns) = Some (n, e, cs)"
    by (auto simp add: locate_def Let_def split: option.splits)
  from loc c found have h: "h = (case closest ?label n ns of None \<Rightarrow> n | Some h \<Rightarrow> h)"
    by (auto simp add: locate_def Let_def split: option.splits)
  from loc c found h
  have r: "(case closest ?group n ns of None \<Rightarrow> parentElement h ns | Some r \<Rightarrow> Some r) = Some r"
    by (auto simp add: locate_def Let_def split: option.splits)
  from found have "(n, e, cs) \<in> set (querySelectorAll c ?name ns)"
    by (rule find_set)
  with querySelectorAll_elements have n_in: "(n, e, cs) \<in> set (elements_in ns)"
    by blast
  then have "fst (n, e, cs) \<in> fst ` set (elements_in ns)"
    by (rule imageI)
  then have "n \<in> set (ids ns)"
    by (simp add: ids_def)
  with K have n: "n \<notin> K"
    by blast
  have "h \<in> set (ids ns)"
    using h \<open>n \<in> set (ids ns)\<close> closest_ids
    by (cases "closest ?label n ns") auto
  with K have h': "h \<notin> K"
    by blast
  from found have "querySelectorAll c ?name ns \<noteq> []"
    by auto
  then have "deref c ns \<noteq> None"
    by (cases "deref c ns") (simp_all add: querySelectorAll_def)
  then have "c \<in> set (ids ns)"
    using deref_ids by blast
  with K have c': "c \<notin> K"
    by blast
  have classes: "?name \<in> set group_classes" "?label \<in> set group_classes"
    "?group \<in> set group_classes"
    unfolding group_classes_def by simp_all
  have "list_all2 (same_element change K)
      (querySelectorAll c ?name ns) (querySelectorAll c ?name ns')"
    using ch alike classes(1) c' by (rule changed_querySelectorAll)
  then have "rel_option (same_element change K)
      (find ?P (querySelectorAll c ?name ns)) (find ?P (querySelectorAll c ?name ns'))"
    by (rule find_related) (auto simp add: same_element_def changed_textContent(2))
  with found obtain e' cs' where
    found': "find ?P (querySelectorAll c ?name ns') = Some (n, e', cs')"
    by (auto simp add: option_rel_Some1 same_element_def)
  have label: "closest ?label n ns' = closest ?label n ns"
    using ch alike classes(2) n by (rule changed_closest)
  have group: "closest ?group n ns' = closest ?group n ns"
    using ch alike classes(3) n by (rule changed_closest)
  have parent: "parentElement h ns' = parentElement h ns"
    using ch h' by (rule changed_parentElement)
  have "locate ctl g ns' =
      (case (case closest ?group n ns' of
               None \<Rightarrow> parentElement (case closest ?label n ns' of None \<Rightarrow> n | Some h \<Rightarrow> h) ns'
             | Some r \<Rightarrow> Some r) of
         None \<Rightarrow> None
       | Some r \<Rightarrow> Some (n, case closest ?label n ns' of None \<Rightarrow> n | Some h \<Rightarrow> h, r))"
    by (simp add: locate_def c found' Let_def)
  also have "\<dots> = (case (case closest ?group n ns of None \<Rightarrow> parentElement h ns | Some r \<Rightarrow> Some r) of
         None \<Rightarrow> None
       | Some r \<Rightarrow> Some (n, h, r))"
    by (simp only: label group h [symmetric] parent)
  also have "\<dots> = Some (n, h, r)"
    by (simp only: r option.case)
  finally show ?thesis .
qed

lemma locate_ids:
  assumes "locate ctl g ns = Some (n, h, r)"
  shows "n \<in> set (ids ns)" and "h \<in> set (ids ns)"
proof -
  let ?P = "\<lambda>(i, e, cs). toLowerCase (trim (textContent_in cs)) = toLowerCase (trim g)"
  let ?name = "''leaflet-control-layers-group-name''"
  let ?label = "''leaflet-control-layers-group-label''"
  from assms obtain c where c: "container ctl = Some c"
    by (cases "container ctl") (simp_all add: locate_def)
  from assms c obtain e cs where found: "find ?P (querySelectorAll c ?name ns) = Some (n, e, cs)"
    by (auto simp add: locate_def Let_def split: option.splits)
  from assms c found have h: "h = (case closest ?label n ns of None \<Rightarrow> n | Some h \<Rightarrow> h)"
    by (auto simp add: locate_def Let_def split: option.splits)
  from found have "(n, e, cs) \<in> set (querySelectorAll c ?name ns)"
    by (rule find_set)
  with querySelectorAll_elements have "(n, e, cs) \<in> set (elements_in ns)"
    by blast
  then have "fst (n, e, cs) \<in> fst ` set (elements_in ns)"
    by (rule imageI)
  then show n: "n \<in> set (ids ns)"
    by (simp add: ids_def)
  show "h \<in> set (ids ns)"
    using h n closest_ids by (cases "closest ?label n ns") auto
qed

subsection \<open>The steps of the wiring\<close>

text \<open>A write to an element: what the document is afterwards, element by element.\<close>

lemma elements_update:
  "elements (update_element x f n) =
     map (\<lambda>(i, e, cs). (i, if i = x then f e else e, update_in x f cs)) (elements n)"
  "elements_in (update_in x f ns) =
     map (\<lambda>(i, e, cs). (i, if i = x then f e else e, update_in x f cs)) (elements_in ns)"
  by (induction x f n and x f ns rule: update_element_update_in.induct) simp_all

lemma ids_update: "ids (update_in x f ns) = ids ns"
  by (simp add: ids_def elements_update(2) case_prod_beta)

lemma find_mapped:
  assumes "\<And>x. P (f x) = P x"
  shows "find P (map f xs) = map_option f (find P xs)"
  by (induction xs) (simp_all add: assms)

lemma deref_update:
  "deref c (update_in x f ns) =
     map_option (\<lambda>(i, e, cs). (i, if i = x then f e else e, update_in x f cs)) (deref c ns)"
  unfolding deref_def elements_update(2)
  by (rule find_mapped) (simp add: case_prod_beta)

lemma child_ids_update:
  "concat (map (\<lambda>n. case n of TextNode t \<Rightarrow> [] | Element j d ds \<Rightarrow> [j]) (update_in x f cs))
     = concat (map (\<lambda>n. case n of TextNode t \<Rightarrow> [] | Element j d ds \<Rightarrow> [j]) cs)"
proof (induction cs)
  case Nil
  then show ?case
    by simp
next
  case (Cons n cs)
  then show ?case
    by (cases n) simp_all
qed

lemma children_update: "children r (update_in x f ns) = children r ns"
  by (cases "deref r ns") (auto simp add: children_def deref_update child_ids_update)

text \<open>The insertion of a new element without children, seen from another element.\<close>

lemma deref_insert:
  assumes "deref c ns = Some (i, e, cs)" and "plain e0" and "k \<notin> set (ids ns)"
  shows "\<exists>cs'. deref c (insert_before_in p (Element k e0 []) q ns) = Some (i, e, cs')"
proof -
  from assms(1) have "c \<in> set (ids ns)"
    by (rule deref_ids)
  with assms(3) have "c \<notin> {k}"
    by auto
  with changed_insert(2) [OF assms(2)]
  have "rel_option (same_element (\<lambda>i e e'. e' = e) {k})
      (deref c ns) (deref c (insert_before_in p (Element k e0 []) q ns))"
    by (rule changed_deref)
  with assms(1) show ?thesis
    by (auto simp add: option_rel_Some1 same_element_def)
qed

text \<open>The search is not affected by any of the steps.\<close>

lemma alike_refl: "alike e e"
  by (simp add: alike_def)

lemma locate_update:
  assumes "locate ctl g ns = Some (n, h, r)" and "\<And>e. alike e (f e)"
  shows "locate ctl g (update_in x f ns) = Some (n, h, r)"
proof (rule locate_changed [OF changed_update(2) _ _ assms(1)])
  show "alike e e'" if "e' = (if i = x then f e else e)" for i e e'
    using that assms(2) by (simp add: alike_refl)
  show "{} \<inter> set (ids ns) = {}"
    by simp
qed

lemma locate_insert:
  assumes "locate ctl g ns = Some (n, h, r)" and "plain e0" and "k \<notin> set (ids ns)"
  shows "locate ctl g (insert_before_in p (Element k e0 []) q ns) = Some (n, h, r)"
proof (rule locate_changed [OF changed_insert(2) [OF assms(2)] _ _ assms(1)])
  show "alike e e'" if "e' = e" for i :: nat and e e'
    using that by (simp add: alike_refl)
  show "{k} \<inter> set (ids ns) = {}"
    using assms(3) by simp
qed

lemma locate_fold_update:
  assumes "\<And>e. alike e (f e)"
  shows "locate ctl g ns = Some (n, h, r)
      \<Longrightarrow> locate ctl g (fold (\<lambda>el. update_in el f) items ns) = Some (n, h, r)"
  by (induction items arbitrary: ns) (simp_all add: locate_update assms)

lemma alike_toggle: "alike e (classList_toggle ''is-collapsed'' b e)"
  by (auto simp add: alike_def classList_toggle_def group_classes_def)

lemma locate_setCollapsed:
  assumes "locate ctl g ns = Some (n, h, r)"
  shows "locate ctl g (setCollapsed x items b ns) = Some (n, h, r)"
  unfolding setCollapsed_def
  by (intro locate_update locate_fold_update assms alike_toggle) (simp add: alike_def)

text \<open>The mark on the header stays.\<close>

lemma wired_update:
  assumes "wired h ns" and "\<And>e. gliWired e \<Longrightarrow> gliWired (f e)"
  shows "wired h (update_in x f ns)"
  using assms by (cases "deref h ns") (auto simp add: wired_def deref_update)

lemma wired_fold_update:
  assumes "\<And>e. gliWired e \<Longrightarrow> gliWired (f e)"
  shows "wired h ns \<Longrightarrow> wired h (fold (\<lambda>el. update_in el f) items ns)"
  by (induction items arbitrary: ns) (simp_all add: wired_update assms)

lemma wired_insert:
  assumes "wired h ns" and "plain e0" and "k \<notin> set (ids ns)"
  shows "wired h (insert_before_in p (Element k e0 []) q ns)"
proof -
  from assms(1) obtain i e cs where h: "deref h ns = Some (i, e, cs)" and "gliWired e"
    by (cases "deref h ns") (auto simp add: wired_def)
  moreover from h assms(2,3)
  obtain cs' where "deref h (insert_before_in p (Element k e0 []) q ns) = Some (i, e, cs')"
    using deref_insert by blast
  ultimately show ?thesis
    by (simp add: wired_def)
qed

lemma wired_setCollapsed:
  assumes "wired h ns"
  shows "wired h (setCollapsed x items b ns)"
  unfolding setCollapsed_def
  by (intro wired_update wired_fold_update assms) (simp_all add: classList_toggle_def)

lemma wired_mark:
  assumes "h \<in> set (ids ns)"
  shows "wired h (update_in h (\<lambda>hdr. hdr\<lparr>gliWired := True\<rparr>) ns)"
proof -
  from assms obtain x where "deref h ns = Some x"
    using ids_deref by blast
  moreover obtain i e cs where "x = (i, e, cs)"
    by (cases x)
  ultimately have "deref h ns = Some (h, e, cs)"
    using deref_Some(1) by blast
  then show ?thesis
    by (simp add: wired_def deref_update)
qed

text \<open>The listeners of the header, step by step.\<close>

lemma click_listeners_update:
  assumes "x \<noteq> h \<or> (\<forall>e. event_listeners (f e) = event_listeners e)"
  shows "click_listeners h (update_in x f ns) = click_listeners h ns"
proof (cases "deref h ns")
  case None
  then show ?thesis
    by (simp add: click_listeners_def deref_update)
next
  case (Some y)
  obtain i e cs where "y = (i, e, cs)"
    by (cases y)
  with Some have "deref h ns = Some (h, e, cs)"
    using deref_Some(1) by blast
  with assms show ?thesis
    by (auto simp add: click_listeners_def deref_update)
qed

lemma click_listeners_fold_update:
  assumes "h \<notin> set items"
  shows "click_listeners h (fold (\<lambda>el. update_in el f) items ns) = click_listeners h ns"
  using assms by (induction items arbitrary: ns) (simp_all add: click_listeners_update)

lemma click_listeners_setCollapsed:
  assumes "h \<notin> set items"
  shows "click_listeners h (setCollapsed x items b ns) = click_listeners h ns"
  unfolding setCollapsed_def
  by (simp add: click_listeners_update click_listeners_fold_update assms classList_toggle_def)

lemma click_listeners_insert:
  assumes "h \<in> set (ids ns)" and "plain e0" and "k \<notin> set (ids ns)"
  shows "click_listeners h (insert_before_in p (Element k e0 []) q ns) = click_listeners h ns"
proof -
  from assms(1) obtain x where "deref h ns = Some x"
    using ids_deref by blast
  moreover obtain i e cs where "x = (i, e, cs)"
    by (cases x)
  ultimately have h: "deref h ns = Some (i, e, cs)"
    by simp
  with assms(2,3)
  obtain cs' where "deref h (insert_before_in p (Element k e0 []) q ns) = Some (i, e, cs')"
    using deref_insert by blast
  with h show ?thesis
    by (simp add: click_listeners_def)
qed

lemma click_listeners_added:
  assumes "h \<in> set (ids ns)"
    and "\<And>e. event_listeners (f e) = event_listeners e @ [(''click'', l), (''keydown'', l')]"
  shows "click_listeners h (update_in h f ns) = click_listeners h ns @ [l]"
proof -
  from assms(1) obtain x where "deref h ns = Some x"
    using ids_deref by blast
  moreover obtain i e cs where "x = (i, e, cs)"
    by (cases x)
  ultimately have "deref h ns = Some (h, e, cs)"
    using deref_Some(1) by blast
  then show ?thesis
    by (simp add: click_listeners_def deref_update assms(2))
qed

subsection \<open>Wiring a header\<close>

lemma caret_plain:
  "plain ((createElement ''span'')
            \<lparr>classList := [''gli-caret''],
             attrs := [(''role'', ''button''), (''aria-label'', ''Toggle group'')],
             tabIndex := Some 0\<rparr>)"
  by (simp add: plain_def group_classes_def)

lemma locate_wire:
  assumes "locate ctl g (dom s) = Some (n, h, r)" and "next_node s \<notin> set (ids (dom s))"
  shows "locate ctl g (dom (fst (wire n' h' r' s))) = Some (n, h, r)"
proof -
  note inserted = locate_insert [OF assms(1) caret_plain assms(2)]
  have listening: "locate ctl g
      (update_in h'
         (\<lambda>e. e\<lparr>css := (css e)(''cursor'' := ''pointer''),
                event_listeners := event_listeners e @ ls,
                click_propagation_disabled := True, scroll_propagation_disabled := True\<rparr>) ns)
      = Some (n, h, r)"
    if "locate ctl g ns = Some (n, h, r)" for ns ls
    using that by (rule locate_update) (simp add: alike_def)
  show ?thesis
    unfolding wire_def Let_def
    by (simp add: assms(1) inserted listening locate_setCollapsed)
qed

lemma wired_wire:
  assumes "wired h (dom s)" and "next_node s \<notin> set (ids (dom s))"
  shows "wired h (dom (fst (wire n' h' r' s)))"
proof -
  note inserted = wired_insert [OF assms(1) caret_plain assms(2)]
  have listening: "wired h
      (update_in h'
         (\<lambda>e. e\<lparr>css := (css e)(''cursor'' := ''pointer''),
                event_listeners := event_listeners e @ ls,
                click_propagation_disabled := True, scroll_propagation_disabled := True\<rparr>) ns)"
    if "wired h ns" for ns ls
    using that by (rule wired_update) simp
  show ?thesis
    unfolding wire_def Let_def
    by (simp add: assms(1) inserted listening wired_setCollapsed)
qed

text \<open>When the wiring goes through, the header has one more listener for clicks.\<close>

lemma click_listeners_wire:
  assumes "snd (wire n h r s) = None" and "h \<in> set (ids (dom s))"
    and "next_node s \<notin> set (ids (dom s))"
  shows "click_listeners h (dom (fst (wire n h r s)))
      = click_listeners h (dom s)
        @ [ClickToggle h (filter (\<lambda>el. el \<noteq> h) (children r (dom s)))]"
proof -
  let ?items = "filter (\<lambda>el. el \<noteq> h) (children r (dom s))"
  let ?caret = "Element (next_node s)
      ((createElement ''span'')
         \<lparr>classList := [''gli-caret''],
          attrs := [(''role'', ''button''), (''aria-label'', ''Toggle group'')],
          tabIndex := Some 0\<rparr>) []"
  let ?listen = "\<lambda>e. e\<lparr>css := (css e)(''cursor'' := ''pointer''),
      event_listeners := event_listeners e @
        [(''click'', ClickToggle h ?items), (''keydown'', KeydownToggle h ?items)],
      click_propagation_disabled := True, scroll_propagation_disabled := True\<rparr>"
  let ?d = "if querySelectorAll h ''gli-caret'' (dom s) \<noteq> [] then dom s
      else insert_before_in h ?caret n (dom s)"
  have items: "h \<notin> set ?items"
    by simp
  have "\<not> (querySelectorAll h ''gli-caret'' (dom s) = [] \<and> n \<notin> set (children h (dom s)))"
  proof
    assume "querySelectorAll h ''gli-caret'' (dom s) = [] \<and> n \<notin> set (children h (dom s))"
    then have "snd (wire n h r s) = Some NotFoundError"
      by (simp add: wire_def)
    with assms(1) show False
      by simp
  qed
  then have result:
    "dom (fst (wire n h r s)) = setCollapsed h ?items True (update_in h ?listen ?d)"
    by (auto simp add: wire_def Let_def)
  have same: "click_listeners h ?d = click_listeners h (dom s)"
    using click_listeners_insert [OF assms(2) caret_plain assms(3)] by simp
  have "h \<in> set (ids ?d)"
  proof -
    from assms(2) obtain x where "deref h (dom s) = Some x"
      using ids_deref by blast
    moreover obtain i e cs where "x = (i, e, cs)"
      by (cases x)
    ultimately have "deref h (dom s) = Some (i, e, cs)"
      by simp
    with caret_plain assms(3)
    obtain cs' where "deref h (insert_before_in h ?caret n (dom s)) = Some (i, e, cs')"
      using deref_insert by blast
    then have "h \<in> set (ids (insert_before_in h ?caret n (dom s)))"
      by (rule deref_ids)
    with assms(2) show ?thesis
      by simp
  qed
  then have added: "click_listeners h (update_in h ?listen ?d)
      = click_listeners h ?d @ [ClickToggle h ?items]"
    by (rule click_listeners_added) simp
  have "click_listeners h (dom (fst (wire n h r s)))
      = click_listeners h (setCollapsed h ?items True (update_in h ?listen ?d))"
    by (simp only: result)
  also have "\<dots> = click_listeners h (update_in h ?listen ?d)"
    using items by (rule click_listeners_setCollapsed)
  also have "\<dots> = click_listeners h ?d @ [ClickToggle h ?items]"
    by (rule added)
  also have "\<dots> = click_listeners h (dom s) @ [ClickToggle h ?items]"
    by (simp only: same)
  finally show ?thesis .
qed

text \<open>A click on an element with one listener for clicks.\<close>

lemma dispatch_click:
  assumes "h \<in> set (ids ns)" and "click_listeners h ns = [ClickToggle x items]"
  shows "dispatch ''click'' key h ns = toggle x items ns"
proof -
  from assms(1) have "h \<in> fst ` set (elements_in ns)"
    by (simp add: ids_def)
  then have "path_in h ns \<noteq> []"
    by (rule path_exists(2))
  then obtain p ps where p: "path_in h ns = p # ps"
    by (cases "path_in h ns") auto
  then have h: "fst p = h"
    by (rule path_head(2))
  have ls: "(case deref h ns of
               None \<Rightarrow> []
             | Some (i, e, cs) \<Rightarrow> map snd (filter (\<lambda>(t, l). t = ''click'') (event_listeners e)))
      = [ClickToggle x items]"
    using assms(2) unfolding click_listeners_def .
  show ?thesis
    by (simp add: dispatch_def p h Let_def ls)
qed

text \<open>The second of two calls finds the header marked, whatever the first one did.\<close>

lemma second_call:
  assumes "next_node s \<notin> set (ids (dom s))"
  shows "makeGroupedLayerCollapsible ctl g (fst (makeGroupedLayerCollapsible ctl g s))
      = (fst (makeGroupedLayerCollapsible ctl g s), None)"
proof (cases "locate ctl g (dom s)")
  case None
  then show ?thesis
    by (simp add: makeGroupedLayerCollapsible_def)
next
  case (Some x)
  obtain n h r where x: "x = (n, h, r)"
    by (cases x)
  show ?thesis
  proof (cases "wired h (dom s)")
    case True
    with Some x show ?thesis
      by (simp add: makeGroupedLayerCollapsible_def)
  next
    case False
    let ?marked = "s\<lparr>dom := update_in h (\<lambda>hdr. hdr\<lparr>gliWired := True\<rparr>) (dom s)\<rparr>"
    from Some x have loc: "locate ctl g (dom s) = Some (n, h, r)"
      by simp
    from loc have "locate ctl g (dom ?marked) = Some (n, h, r)"
      by (simp add: locate_update alike_def)
    moreover from assms have "next_node ?marked \<notin> set (ids (dom ?marked))"
      by (simp add: ids_update)
    ultimately have found: "locate ctl g (dom (fst (wire n h r ?marked))) = Some (n, h, r)"
      by (rule locate_wire)
    from loc have "h \<in> set (ids (dom s))"
      by (rule locate_ids(2))
    then have "wired h (dom ?marked)"
      by (simp add: wired_mark)
    moreover from assms have "next_node ?marked \<notin> set (ids (dom ?marked))"
      by (simp add: ids_update)
    ultimately have marked: "wired h (dom (fst (wire n h r ?marked)))"
      by (rule wired_wire)
    from loc False have "makeGroupedLayerCollapsible ctl g s = wire n h r ?marked"
      by (simp add: makeGroupedLayerCollapsible_def)
    moreover from found marked
    have "makeGroupedLayerCollapsible ctl g (fst (wire n h r ?marked))
        = (fst (wire n h r ?marked), None)"
      by (simp add: makeGroupedLayerCollapsible_def)
    ultimately show ?thesis
      by simp
  qed
qed

text \<open>The first call on a header that is not marked, when it goes through.\<close>

lemma first_call:
  assumes "next_node s \<notin> set (ids (dom s))"
    and "locate ctl g (dom s) = Some (n, h, r)"
    and "\<not> wired h (dom s)"
    and "snd (makeGroupedLayerCollapsible ctl g s) = None"
  shows "click_listeners h (dom (fst (makeGroupedLayerCollapsible ctl g s)))
      = click_listeners h (dom s)
        @ [ClickToggle h (filter (\<lambda>el. el \<noteq> h) (children r (dom s)))]"
    and "h \<in> set (ids (dom (fst (makeGroupedLayerCollapsible ctl g s))))"
proof -
  let ?marked = "s\<lparr>dom := update_in h (\<lambda>hdr. hdr\<lparr>gliWired := True\<rparr>) (dom s)\<rparr>"
  from assms(2,3) have call: "makeGroupedLayerCollapsible ctl g s = wire n h r ?marked"
    by (simp add: makeGroupedLayerCollapsible_def)
  from assms(2) have h: "h \<in> set (ids (dom s))"
    by (rule locate_ids(2))
  from assms(4) call have "snd (wire n h r ?marked) = None"
    by simp
  moreover from h have "h \<in> set (ids (dom ?marked))"
    by (simp add: ids_update)
  moreover from assms(1) have fresh: "next_node ?marked \<notin> set (ids (dom ?marked))"
    by (simp add: ids_update)
  ultimately have "click_listeners h (dom (fst (wire n h r ?marked)))
      = click_listeners h (dom ?marked)
        @ [ClickToggle h (filter (\<lambda>el. el \<noteq> h) (children r (dom ?marked)))]"
    by (rule click_listeners_wire)
  with call show "click_listeners h (dom (fst (makeGroupedLayerCollapsible ctl g s)))
      = click_listeners h (dom s)
        @ [ClickToggle h (filter (\<lambda>el. el \<noteq> h) (children r (dom s)))]"
    by (simp add: children_update click_listeners_update)
  from assms(2) have "locate ctl g (dom ?marked) = Some (n, h, r)"
    by (simp add: locate_update alike_def)
  then have "locate ctl g (dom (fst (wire n h r ?marked))) = Some (n, h, r)"
    using fresh by (rule locate_wire)
  then have "h \<in> set (ids (dom (fst (wire n h r ?marked))))"
    by (rule locate_ids(2))
  with call show "h \<in> set (ids (dom (fst (makeGroupedLayerCollapsible ctl g s))))"
    by simp
qed

subsection \<open>Two calls\<close>

text \<open>
  C3. Two calls of \<^verbatim>\<open>makeGroupedLayerCollapsible\<close> for the same group, one after the
  other, in a document where the identity of the next element to be created is new. The
  second call changes nothing and throws nothing. If the first call found a header that
  was not marked and went through, then after the two calls the header has the listeners
  for clicks it had before and one more, the toggle over the other children of the group
  root; and if it had none before, a click on the header toggles once.
\<close>

theorem wiring_idempotent:
  assumes "next_node s \<notin> set (ids (dom s))"
    and "makeGroupedLayerCollapsible ctl g s = (s1, e1)"
    and "makeGroupedLayerCollapsible ctl g s1 = (s2, e2)"
  shows "s2 = s1 \<and> e2 = None
       \<and> (\<forall>n h r. locate ctl g (dom s) = Some (n, h, r) \<and> \<not> wired h (dom s) \<and> e1 = None \<longrightarrow>
            click_listeners h (dom s2)
              = click_listeners h (dom s)
                @ [ClickToggle h (filter (\<lambda>el. el \<noteq> h) (children r (dom s)))]
            \<and> (click_listeners h (dom s) = [] \<longrightarrow>
                 dispatch ''click'' [] h (dom s2)
                   = toggle h (filter (\<lambda>el. el \<noteq> h) (children r (dom s))) (dom s2)))"
proof -
  from assms(2) have s1: "s1 = fst (makeGroupedLayerCollapsible ctl g s)"
    and e1: "e1 = snd (makeGroupedLayerCollapsible ctl g s)"
    by simp_all
  from second_call [OF assms(1), of ctl g] assms(3)
  have second: "s2 = s1" "e2 = None"
    by (simp_all add: s1)
  have "click_listeners h (dom s1)
          = click_listeners h (dom s)
            @ [ClickToggle h (filter (\<lambda>el. el \<noteq> h) (children r (dom s)))]
        \<and> (click_listeners h (dom s) = [] \<longrightarrow>
             dispatch ''click'' [] h (dom s1)
               = toggle h (filter (\<lambda>el. el \<noteq> h) (children r (dom s))) (dom s1))"
    if found: "locate ctl g (dom s) = Some (n, h, r)" and unmarked: "\<not> wired h (dom s)"
      and through: "e1 = None" for n h r
  proof -
    from through have "snd (makeGroupedLayerCollapsible ctl g s) = None"
      by (simp add: e1)
    with assms(1) found unmarked
    have listeners: "click_listeners h (dom s1)
        = click_listeners h (dom s)
          @ [ClickToggle h (filter (\<lambda>el. el \<noteq> h) (children r (dom s)))]"
      and header: "h \<in> set (ids (dom s1))"
      unfolding s1 by (rule first_call)+
    have "dispatch ''click'' [] h (dom s1)
        = toggle h (filter (\<lambda>el. el \<noteq> h) (children r (dom s))) (dom s1)"
      if "click_listeners h (dom s) = []"
      using header by (rule dispatch_click) (simp add: listeners that)
    with listeners show ?thesis
      by blast
  qed
  with second show ?thesis
    by blast
qed

theorem wiring_idempotent_witness:
  "next_node example_control_page \<notin> set (ids (dom example_control_page))
   \<and> locate example_control ''Work Zones'' (dom example_control_page) = Some (8, 7, 6)
   \<and> \<not> wired 7 (dom example_control_page)
   \<and> click_listeners 7 (dom example_control_page) = []
   \<and> snd (makeGroupedLayerCollapsible example_control ''Work Zones'' example_control_page) = None
   \<and> makeGroupedLayerCollapsible example_control ''Work Zones''
       (fst (makeGroupedLayerCollapsible example_control ''Work Zones'' example_control_page))
     = (fst (makeGroupedLayerCollapsible example_control ''Work Zones'' example_control_page), None)
   \<and> click_listeners 7
       (dom (fst (makeGroupedLayerCollapsible example_control ''Work Zones'' example_control_page)))
     = [ClickToggle 7 [9]]
   \<and> dispatch ''click'' [] 7
       (dom (fst (makeGroupedLayerCollapsible example_control ''Work Zones'' example_control_page)))
     = toggle 7 [9]
         (dom (fst (makeGroupedLayerCollapsible example_control ''Work Zones'' example_control_page)))"
proof -
  let ?s = example_control_page
  let ?first = "makeGroupedLayerCollapsible example_control ''Work Zones'' ?s"
  let ?second = "makeGroupedLayerCollapsible example_control ''Work Zones'' (fst ?first)"
  have new: "next_node ?s \<notin> set (ids (dom ?s))"
    by code_simp
  have found: "locate example_control ''Work Zones'' (dom ?s) = Some (8, 7, 6)"
    by code_simp
  have unmarked: "\<not> wired 7 (dom ?s)"
    by code_simp
  have none: "click_listeners 7 (dom ?s) = []"
    by code_simp
  have through: "snd ?first = None"
    by code_simp
  have items: "filter (\<lambda>el. el \<noteq> 7) (children 6 (dom ?s)) = [9]"
    by code_simp
  have first: "?first = (fst ?first, snd ?first)"
    by simp
  have second: "?second = (fst ?second, snd ?second)"
    by simp
  note twice = wiring_idempotent [OF new first second]
  from twice have same: "fst ?second = fst ?first"
    by (rule conjunct1)
  from twice have quiet: "snd ?second = None"
    by (rule conjunct1 [OF conjunct2])
  note header = conjunct2 [OF conjunct2 [OF twice], rule_format,
      OF conjI [OF found conjI [OF unmarked through]]]
  from header [THEN conjunct1]
  have one: "click_listeners 7 (dom (fst ?first)) = [ClickToggle 7 [9]]"
    by (simp only: items none same append_Nil)
  from header [THEN conjunct2, THEN mp, OF none]
  have click: "dispatch ''click'' [] 7 (dom (fst ?first)) = toggle 7 [9] (dom (fst ?first))"
    by (simp only: items same)
  from second same quiet have "?second = (fst ?first, None)"
    by (simp only:)
  with new found unmarked none through one click show ?thesis
    by (intro conjI)
qed

end
